theory Spec2Isabelle
  imports Main "HOL-Library.Word"
begin

unbundle bit_operations_syntax

section \<open>Upload and gallery listing of \<open>webapp/app.py\<close>\<close>

text \<open>
  The module has two functions that talk to the blob store:
  \<open>add_file_and_metadata_to_blob_storage\<close> (the uploader) and \<open>gallery\<close> (the lister).
  Both are embedded below as functions on an explicit world: the configured container,
  the client handles that are open, the client calls and HTTP requests made so far, and
  the answers the service is going to give. The 16 bytes that \<open>uuid.uuid4\<close> reads from
  \<open>os.urandom\<close> are an argument of the uploader. Strings are byte strings; the model of
  \<open>str.lower\<close> covers the ASCII letters.
\<close>

subsection \<open>Python strings and dictionaries\<close>

type_synonym bytes = "8 word list"

type_synonym dict = "(string \<times> string) list"

text \<open>\<open>str.lower\<close>, on the letters A to Z; every other character is kept.\<close>

definition lower_char :: "char \<Rightarrow> char" where
  "lower_char c =
     (case map_of (zip ''ABCDEFGHIJKLMNOPQRSTUVWXYZ'' ''abcdefghijklmnopqrstuvwxyz'') c of
        None \<Rightarrow> c
      | Some d \<Rightarrow> d)"

definition lower :: "string \<Rightarrow> string" where
  "lower s = map lower_char s"

text \<open>
  \<open>s.split(sep)\<close> for a separator of one character: the pieces between the separators,
  never an empty list (\<open>"".split(".")\<close> is \<open>[""]\<close>).
\<close>

fun str_split :: "char \<Rightarrow> string \<Rightarrow> string list" where
  "str_split sep [] = [[]]"
| "str_split sep (c # cs) =
     (if c = sep then [] # str_split sep cs
      else (case str_split sep cs of
              [] \<Rightarrow> [[c]]
            | p # ps \<Rightarrow> (c # p) # ps))"

datatype 'e error = KeyError string | ResourceExistsError | StoreError 'e

text \<open>\<open>d[k]\<close> on a dictionary: the value, or \<open>KeyError\<close> when the key is absent.\<close>

definition getitem :: "dict \<Rightarrow> string \<Rightarrow> 'e error + string" where
  "getitem d k = (case map_of d k of None \<Rightarrow> Inl (KeyError k) | Some v \<Rightarrow> Inr v)"

subsection \<open>\<open>uuid.uuid4\<close> and \<open>str\<close> of a UUID\<close>

text \<open>
  The standard library's \<open>uuid4()\<close> is \<open>UUID(bytes=os.urandom(16), version=4)\<close>: the bytes
  are read big-endian as a 128-bit integer \<open>r\<close>, and then
  \<^verbatim>\<open>
    int &= ~(0xc000 << 48);  int |= 0x8000 << 48
    int &= ~(0xf000 << 64);  int |= version << 76
  \<close>
  \<open>str\<close> prints \<open>'%032x' % int\<close> cut into groups of 8, 4, 4, 4 and 12 digits joined by
  hyphens.
\<close>

definition uuid4 :: "128 word \<Rightarrow> 128 word" where
  "uuid4 r = (((r AND NOT (push_bit 48 0xc000)) OR push_bit 48 0x8000)
                 AND NOT (push_bit 64 0xf000)) OR push_bit 76 4"

definition hex_digit :: "nat \<Rightarrow> char" where
  "hex_digit n = ''0123456789abcdef'' ! n"

text \<open>The \<open>i\<close>-th hexadecimal digit of \<open>'%032x' % x\<close>, counted from the left.\<close>

definition nibble :: "128 word \<Rightarrow> nat \<Rightarrow> nat" where
  "nibble x i = unat (drop_bit (4 * (31 - i)) x AND 15)"

definition hex32 :: "128 word \<Rightarrow> string" where
  "hex32 x = map (\<lambda>i. hex_digit (nibble x i)) [0..<32]"

definition str_uuid :: "128 word \<Rightarrow> string" where
  "str_uuid u =
     (let hex = hex32 u in
      take 8 hex @ ''-'' @ take 4 (drop 8 hex) @ ''-'' @ take 4 (drop 12 hex) @ ''-'' @
      take 4 (drop 16 hex) @ ''-'' @ drop 20 hex)"

text \<open>
  The syntax of a version-4 UUID in its canonical text form:
  \<open>xxxxxxxx-xxxx-4xxx-yxxx-xxxxxxxxxxxx\<close>, \<open>x\<close> a lower-case hexadecimal digit and
  \<open>y\<close> one of 8, 9, a, b.
\<close>

definition is_hex :: "char \<Rightarrow> bool" where
  "is_hex c \<longleftrightarrow> c \<in> set ''0123456789abcdef''"

definition is_uuid4_syntax :: "string \<Rightarrow> bool" where
  "is_uuid4_syntax s \<longleftrightarrow>
     length s = 36 \<and>
     list_all is_hex (take 8 s) \<and> s ! 8 = CHR ''-'' \<and>
     list_all is_hex (take 4 (drop 9 s)) \<and> s ! 13 = CHR ''-'' \<and>
     s ! 14 = CHR ''4'' \<and> list_all is_hex (take 3 (drop 15 s)) \<and> s ! 18 = CHR ''-'' \<and>
     s ! 19 \<in> set ''89ab'' \<and> list_all is_hex (take 3 (drop 20 s)) \<and> s ! 23 = CHR ''-'' \<and>
     list_all is_hex (drop 24 s)"

subsection \<open>The blob store and its clients\<close>

text \<open>
  An object of the container: its bytes, its metadata dictionary and the content type
  of its content settings.
\<close>

record blob_obj =
  blob_data :: bytes
  blob_metadata :: dict
  blob_content_type :: string

datatype client = BlobServiceClient | ContainerClient | BlobClient string

datatype request = Upload_blob string | List_blobs

text \<open>
  A request that the service does not serve fails in one of two ways. A transient failure
  (a connection error, a timeout, a 5xx answer such as server busy) is one that the
  client's retry policy sends again; a fatal one (bad credentials, a 4xx answer) is raised
  at once.
\<close>

datatype 'e fault = Transient 'e | Fatal 'e

text \<open>
  The world of a call. \<open>container\<close> holds the objects of the configured container by
  name, in the order the service enumerates them. \<open>open_clients\<close> are the clients
  constructed and not yet closed. \<open>sent\<close> logs the calls made on a client that go to the
  service, one entry for each \<open>upload_blob\<close> or \<open>list_blobs\<close> call. \<open>attempts\<close> counts the
  HTTP requests that the clients' pipelines have sent for these calls. \<open>faults\<close> scripts
  the service: its head answers the next HTTP request, \<open>None\<close> for a request that is served
  and \<open>Some f\<close> for one that fails with \<open>f\<close>; a service with an empty script serves every
  request.
\<close>

record 'e world =
  container :: "(string \<times> blob_obj) list"
  open_clients :: "client list"
  sent :: "request list"
  faults :: "'e fault option list"
  attempts :: nat

definition new_client :: "client \<Rightarrow> 'e world \<Rightarrow> 'e world" where
  "new_client c w = w\<lparr>open_clients := c # open_clients w\<rparr>"

definition close_client :: "client \<Rightarrow> 'e world \<Rightarrow> 'e world" where
  "close_client c w = w\<lparr>open_clients := remove1 c (open_clients w)\<rparr>"

text \<open>One HTTP request: the service answers it with the head of its script.\<close>

definition attempt :: "'e world \<Rightarrow> 'e fault option \<times> 'e world" where
  "attempt w =
     (case faults w of
        [] \<Rightarrow> (None, w\<lparr>attempts := Suc (attempts w)\<rparr>)
      | f # fs \<Rightarrow> (f, w\<lparr>faults := fs, attempts := Suc (attempts w)\<rparr>))"

text \<open>
  The retry policy of the SDK's pipeline. \<open>app.py\<close> constructs its clients with an account
  URL, a credential and names only, so the clients keep the default policy of the storage
  SDK, an exponential retry with \<open>retry_total=3\<close>: a request that fails transiently is sent
  again while retries remain, and the last failure is raised when they are used up.
\<close>

definition retry_total :: nat where
  "retry_total = 3"

fun send_with_retry :: "nat \<Rightarrow> 'e world \<Rightarrow> 'e option \<times> 'e world" where
  "send_with_retry 0 w =
     (case attempt w of
        (None, w1) \<Rightarrow> (None, w1)
      | (Some (Fatal e), w1) \<Rightarrow> (Some e, w1)
      | (Some (Transient e), w1) \<Rightarrow> (Some e, w1))"
| "send_with_retry (Suc retries) w =
     (case attempt w of
        (None, w1) \<Rightarrow> (None, w1)
      | (Some (Fatal e), w1) \<Rightarrow> (Some e, w1)
      | (Some (Transient e), w1) \<Rightarrow> send_with_retry retries w1)"

text \<open>A call on a client that goes to the service: logged, then sent through the pipeline.\<close>

definition send_request :: "request \<Rightarrow> 'e world \<Rightarrow> 'e option \<times> 'e world" where
  "send_request q w = send_with_retry retry_total (w\<lparr>sent := sent w @ [q]\<rparr>)"

text \<open>
  \<open>BlobClient.upload_blob(data, metadata=..., content_settings=...)\<close> of the storage SDK.
  The call is made without \<open>overwrite\<close>, whose default is \<open>False\<close>: a name that exists
  already is refused with \<open>ResourceExistsError\<close>.
\<close>

definition upload_blob ::
  "string \<Rightarrow> bytes \<Rightarrow> dict \<Rightarrow> string \<Rightarrow> 'e world \<Rightarrow> ('e error + unit) \<times> 'e world" where
  "upload_blob blob_name contents md ctype w =
     (case send_request (Upload_blob blob_name) w of
        (Some e, w1) \<Rightarrow> (Inl (StoreError e), w1)
      | (None, w1) \<Rightarrow>
          if blob_name \<in> fst ` set (container w1) then (Inl ResourceExistsError, w1)
          else (Inr (),
                w1\<lparr>container := container w1 @
                   [(blob_name,
                     \<lparr>blob_data = contents, blob_metadata = md, blob_content_type = ctype\<rparr>)]\<rparr>))"

text \<open>\<open>ContainerClient.list_blobs(include=["metadata"])\<close>: every object, with its metadata.\<close>

definition list_blobs :: "'e world \<Rightarrow> ('e error + (string \<times> blob_obj) list) \<times> 'e world" where
  "list_blobs w =
     (case send_request List_blobs w of
        (Some e, w1) \<Rightarrow> (Inl (StoreError e), w1)
      | (None, w1) \<Rightarrow> (Inr (container w1), w1))"

subsection \<open>The uploader\<close>

text \<open>The three locals of \<open>add_file_and_metadata_to_blob_storage\<close>.\<close>

definition extension :: "string \<Rightarrow> string" where
  "extension file_name = lower (last (str_split CHR ''.'' file_name))"

definition file_uuid_str :: "128 word \<Rightarrow> string" where
  "file_uuid_str r = str_uuid (uuid4 r)"

definition new_filename :: "128 word \<Rightarrow> string \<Rightarrow> string" where
  "new_filename r file_name = file_uuid_str r @ ''.'' @ extension file_name"

text \<open>The metadata dictionary passed to \<open>upload_blob\<close>.\<close>

definition upload_metadata :: "128 word \<Rightarrow> string \<Rightarrow> dict" where
  "upload_metadata r file_name =
     [(''original_file_name'', file_name),
      (''uuid'', file_uuid_str r),
      (''author'', ''Dummy User''),
      (''title'', ''Dummy title''),
      (''badge'', ''dummy badge'')]"

text \<open>
  The function constructs the \<open>BlobClient\<close> of the new name, awaits \<open>upload_blob\<close> and then
  awaits \<open>close\<close>. An exception of \<open>upload_blob\<close> leaves the function at that line.
\<close>

definition add_file_and_metadata_to_blob_storage ::
  "128 word \<Rightarrow> string \<Rightarrow> bytes \<Rightarrow> string \<Rightarrow> 'e world \<Rightarrow> ('e error + unit) \<times> 'e world" where
  "add_file_and_metadata_to_blob_storage r file_name file_contents file_content_type w =
     (let blob = BlobClient (new_filename r file_name);
          w1 = new_client blob w
      in case upload_blob (new_filename r file_name) file_contents
                (upload_metadata r file_name) file_content_type w1 of
           (Inl e, w2) \<Rightarrow> (Inl e, w2)
         | (Inr u, w2) \<Rightarrow> (Inr (), close_client blob w2))"

subsection \<open>The lister\<close>

definition image_url :: string where
  "image_url = ''https://bootsnipp.com/bootstrap-builder/libs/builder/icons/image.svg''"

text \<open>
  The dictionary literal appended for one blob. Its values are evaluated in the order
  they are written, so the first absent key among uuid, author, title, badge is the one
  the \<open>KeyError\<close> reports.
\<close>

definition blob_entry :: "dict \<Rightarrow> 'e error + dict" where
  "blob_entry md =
     (case getitem md ''uuid'' of Inl e \<Rightarrow> Inl e | Inr u \<Rightarrow>
      (case getitem md ''author'' of Inl e \<Rightarrow> Inl e | Inr a \<Rightarrow>
       (case getitem md ''title'' of Inl e \<Rightarrow> Inl e | Inr t \<Rightarrow>
        (case getitem md ''badge'' of Inl e \<Rightarrow> Inl e | Inr b \<Rightarrow>
           Inr [(''uuid'', u), (''image_url'', image_url), (''author'', a),
                (''title'', t), (''badge'', b)]))))"

text \<open>The \<open>async for\<close> loop, with \<open>blobs_list\<close> as accumulator.\<close>

fun gallery_loop :: "(string \<times> blob_obj) list \<Rightarrow> dict list \<Rightarrow> 'e error + dict list" where
  "gallery_loop [] blobs_list = Inr blobs_list"
| "gallery_loop (blob # rest) blobs_list =
     (case blob_entry (blob_metadata (snd blob)) of
        Inl e \<Rightarrow> Inl e
      | Inr entry \<Rightarrow> gallery_loop rest (blobs_list @ [entry]))"

text \<open>\<open>templates.TemplateResponse(name, {"request": request, "blobs": blobs_list})\<close>.\<close>

datatype 'req response = TemplateResponse string 'req "dict list"

definition gallery :: "'req \<Rightarrow> 'e world \<Rightarrow> ('e error + 'req response) \<times> 'e world" where
  "gallery request w =
     (let w1 = new_client BlobServiceClient w;
          w2 = new_client ContainerClient w1
      in case list_blobs w2 of
           (Inl e, w3) \<Rightarrow> (Inl e, w3)
         | (Inr listing, w3) \<Rightarrow>
             (case gallery_loop listing [] of
                Inl e \<Rightarrow> (Inl e, w3)
              | Inr blobs_list \<Rightarrow>
                  (Inr (TemplateResponse ''gallery.html'' request blobs_list),
                   close_client BlobServiceClient (close_client ContainerClient w3))))"

subsection \<open>Notions used by the properties\<close>

text \<open>The service serves the next request.\<close>

definition serves_next :: "'e world \<Rightarrow> bool" where
  "serves_next w \<longleftrightarrow> (case faults w of [] \<Rightarrow> True | f # fs \<Rightarrow> f = None)"

text \<open>The service serves the next \<open>n\<close> requests.\<close>

definition serves_all :: "nat \<Rightarrow> 'e world \<Rightarrow> bool" where
  "serves_all n w \<longleftrightarrow> list_all (\<lambda>f. f = None) (take n (faults w))"

text \<open>The object that the uploader hands to \<open>upload_blob\<close>.\<close>

definition stored_object :: "128 word \<Rightarrow> string \<Rightarrow> bytes \<Rightarrow> string \<Rightarrow> blob_obj" where
  "stored_object r file_name file_contents file_content_type =
     \<lparr>blob_data = file_contents, blob_metadata = upload_metadata r file_name,
      blob_content_type = file_content_type\<rparr>"

text \<open>
  The 122 bits of the random draw that \<open>uuid4\<close> keeps: all but the four version bits
  and the two variant bits.
\<close>

definition random_bits :: "128 word \<Rightarrow> 128 word" where
  "random_bits r = r AND NOT (push_bit 48 0xc000) AND NOT (push_bit 64 0xf000)"

definition expected_keys :: "string list" where
  "expected_keys = [''uuid'', ''author'', ''title'', ''badge'']"

definition has_expected_keys :: "dict \<Rightarrow> bool" where
  "has_expected_keys md \<longleftrightarrow> list_all (\<lambda>k. map_of md k \<noteq> None) expected_keys"

text \<open>
  The display record of an object as the specification words it: the stored values of
  uuid, author, title and badge, and the fixed placeholder image.
\<close>

definition is_display_record :: "dict \<Rightarrow> dict \<Rightarrow> bool" where
  "is_display_record md entry \<longleftrightarrow>
     (case (map_of md ''uuid'', map_of md ''author'', map_of md ''title'', map_of md ''badge'') of
        (Some u, Some a, Some t, Some b) \<Rightarrow>
          entry =
            [(''uuid'', u),
             (''image_url'',
              ''https://bootsnipp.com/bootstrap-builder/libs/builder/icons/image.svg''),
             (''author'', a), (''title'', t), (''badge'', b)]
      | _ \<Rightarrow> False)"

subsection \<open>Example inputs\<close>

text \<open>Two random draws, and the worlds on which the properties are exercised.\<close>

definition draw_a :: "128 word" where
  "draw_a = 0x0123456789abcdef0123456789abcdef"

definition draw_b :: "128 word" where
  "draw_b = 0xfedcba9876543210fedcba9876543210"

definition empty_world :: "unit world" where
  "empty_world =
     \<lparr>container = [], open_clients = [], sent = [], faults = [], attempts = 0\<rparr>"

text \<open>A service that refuses the next request for good, and serves the one after.\<close>

definition down_world :: "unit world" where
  "down_world =
     \<lparr>container = [], open_clients = [], sent = [], faults = [Some (Fatal ()), None],
      attempts = 0\<rparr>"

text \<open>A service that is busy at the next request, and serves the one after.\<close>

definition busy_world :: "unit world" where
  "busy_world =
     \<lparr>container = [], open_clients = [], sent = [], faults = [Some (Transient ()), None],
      attempts = 0\<rparr>"

text \<open>A service that is busy at the next four requests, and serves the one after.\<close>

definition busy4_world :: "unit world" where
  "busy4_world =
     \<lparr>container = [], open_clients = [], sent = [],
      faults = [Some (Transient ()), Some (Transient ()), Some (Transient ()),
                Some (Transient ()), None],
      attempts = 0\<rparr>"

text \<open>The objects that two uploads of the same clip leave in an empty container.\<close>

definition clip_a :: "string \<times> blob_obj" where
  "clip_a =
     (''01234567-89ab-4def-8123-456789abcdef.mp4'',
      \<lparr>blob_data = [1, 2, 3],
       blob_metadata =
         [(''original_file_name'', ''clip.MP4''),
          (''uuid'', ''01234567-89ab-4def-8123-456789abcdef''),
          (''author'', ''Dummy User''), (''title'', ''Dummy title''),
          (''badge'', ''dummy badge'')],
       blob_content_type = ''video/mp4''\<rparr>)"

definition clip_b :: "string \<times> blob_obj" where
  "clip_b =
     (''fedcba98-7654-4210-bedc-ba9876543210.mp4'',
      \<lparr>blob_data = [1, 2, 3],
       blob_metadata =
         [(''original_file_name'', ''clip.MP4''),
          (''uuid'', ''fedcba98-7654-4210-bedc-ba9876543210''),
          (''author'', ''Dummy User''), (''title'', ''Dummy title''),
          (''badge'', ''dummy badge'')],
       blob_content_type = ''video/mp4''\<rparr>)"

definition world_a :: "unit world" where
  "world_a =
     \<lparr>container = [clip_a], open_clients = [],
      sent = [Upload_blob ''01234567-89ab-4def-8123-456789abcdef.mp4''], faults = [],
      attempts = 1\<rparr>"

definition world_ab :: "unit world" where
  "world_ab =
     \<lparr>container = [clip_a, clip_b], open_clients = [],
      sent = [Upload_blob ''01234567-89ab-4def-8123-456789abcdef.mp4'',
              Upload_blob ''fedcba98-7654-4210-bedc-ba9876543210.mp4''],
      faults = [], attempts = 2\<rparr>"

text \<open>A container with an object that some other tool wrote, without author, title or badge.\<close>

definition foreign_world :: "unit world" where
  "foreign_world =
     \<lparr>container =
        [clip_a,
         (''intro.webm'',
          \<lparr>blob_data = [], blob_metadata = [(''uuid'', ''intro'')],
           blob_content_type = ''video/webm''\<rparr>)],
      open_clients = [], sent = [], faults = [], attempts = 0\<rparr>"

definition entry_a :: dict where
  "entry_a =
     [(''uuid'', ''01234567-89ab-4def-8123-456789abcdef''),
      (''image_url'', ''https://bootsnipp.com/bootstrap-builder/libs/builder/icons/image.svg''),
      (''author'', ''Dummy User''), (''title'', ''Dummy title''), (''badge'', ''dummy badge'')]"

definition entry_b :: dict where
  "entry_b =
     [(''uuid'', ''fedcba98-7654-4210-bedc-ba9876543210''),
      (''image_url'', ''https://bootsnipp.com/bootstrap-builder/libs/builder/icons/image.svg''),
      (''author'', ''Dummy User''), (''title'', ''Dummy title''), (''badge'', ''dummy badge'')]"

section \<open>Auxiliary facts\<close>

subsection \<open>Splitting and lower-casing\<close>

lemma str_split_nonempty: "str_split sep s \<noteq> []"
  by (induction s) (auto split: list.splits)

lemma str_split_no_sep: "sep \<notin> set s \<Longrightarrow> str_split sep s = [s]"
  by (induction s) auto

lemma str_split_append:
  "str_split sep (xs @ sep # ys) = str_split sep xs @ str_split sep ys"
proof (induction xs)
  case Nil
  show ?case by simp
next
  case (Cons c xs)
  show ?case
  proof (cases "str_split sep xs")
    case Nil
    then show ?thesis by (simp add: str_split_nonempty)
  next
    case (Cons p ps)
    with Cons.IH show ?thesis by simp
  qed
qed

lemma last_str_split_append:
  "sep \<notin> set suf \<Longrightarrow> last (str_split sep (pre @ sep # suf)) = suf"
  by (simp add: str_split_append str_split_no_sep)

subsection \<open>The text form of a UUID\<close>

lemma nibble_lt: "nibble x i < 16"
proof -
  have "drop_bit (4 * (31 - i)) x AND 15 \<le> 15"
    by (rule word_and_le1)
  then have "unat (drop_bit (4 * (31 - i)) x AND 15) \<le> unat (15 :: 128 word)"
    by (simp only: word_le_nat_alt)
  then show ?thesis by (simp add: nibble_def)
qed

lemma is_hex_hex_digit: "n < 16 \<Longrightarrow> is_hex (hex_digit n)"
  unfolding is_hex_def hex_digit_def by (rule nth_mem) simp

lemma length_hex32: "length (hex32 x) = 32"
  by (simp add: hex32_def)

lemma nth_hex32: "i < 32 \<Longrightarrow> hex32 x ! i = hex_digit (nibble x i)"
  by (simp add: hex32_def)

lemma list_all_is_hex_hex32: "list_all is_hex (hex32 x)"
  by (simp add: hex32_def list_all_iff is_hex_hex_digit nibble_lt)


lemma list_all_take: "list_all P xs \<Longrightarrow> list_all P (take n xs)"
  by (auto simp: list_all_iff dest: in_set_takeD)

lemma list_all_drop: "list_all P xs \<Longrightarrow> list_all P (drop n xs)"
  by (auto simp: list_all_iff dest: in_set_dropD)

lemma str_uuid_syntax:
  assumes v: "nibble u 12 = 4" and y: "hex_digit (nibble u 16) \<in> set ''89ab''"
  shows "is_uuid4_syntax (str_uuid u)"
proof -
  define h where "h = hex32 u"
  have len: "length h = 32" by (simp add: h_def length_hex32)
  have hx: "list_all is_hex h" by (simp add: h_def list_all_is_hex_hex32)
  have h12: "h ! 12 = CHR ''4''"
    using v by (simp add: h_def nth_hex32 hex_digit_def)
  have h16: "h ! 16 \<in> set ''89ab''"
    using y by (simp add: h_def nth_hex32)
  have s: "str_uuid u = take 8 h @ ''-'' @ take 4 (drop 8 h) @ ''-'' @ take 4 (drop 12 h) @ ''-'' @
      take 4 (drop 16 h) @ ''-'' @ drop 20 h"
    by (simp add: str_uuid_def h_def Let_def)
  show ?thesis
    unfolding s is_uuid4_syntax_def
    using len hx h12 h16
    apply (simp add: nth_append list_all_take list_all_drop min_def)
    done
qed

lemma fifteen_mask: "(15 :: 128 word) = mask 4"
  by (simp add: mask_eq_exp_minus_1)

lemma lt4_cases: "n < 4 \<Longrightarrow> n = 0 \<or> n = 1 \<or> n = 2 \<or> n = (3::nat)"
  by arith

lemma bit_four: "bit (4 :: 128 word) n \<longleftrightarrow> n = 2"
proof -
  have "(4 :: 128 word) = 2 ^ 2" by simp
  then show ?thesis
    by (simp only: bit_exp_iff) (auto simp: possible_bit_word)
qed

lemma version_bits: "drop_bit 76 (uuid4 r) AND 15 = 4"
proof (rule bit_word_eqI)
  fix n :: nat
  assume "n < LENGTH(128)"
  show "bit (drop_bit 76 (uuid4 r) AND 15) n = bit (4 :: 128 word) n"
  proof (cases "n < 4")
    case True
    then have "n = 0 \<or> n = 1 \<or> n = 2 \<or> n = 3" by (rule lt4_cases)
    then show ?thesis
      by (auto simp add: uuid4_def bit_simps)
  next
    case False
    then show ?thesis using bit_four [of n] by (simp add: fifteen_mask bit_simps)
  qed
qed

lemma version_nibble: "nibble (uuid4 r) 12 = 4"
  using version_bits [of r] by (simp add: nibble_def)

text \<open>
  The digit at position 16 is 8 plus the two bits of the draw below the variant bits.
\<close>

lemma variant_bits: "drop_bit 60 (uuid4 r) AND 15 = 8 OR (drop_bit 60 r AND 3)"
proof (rule bit_word_eqI)
  fix n :: nat
  assume "n < LENGTH(128)"
  have three: "(3 :: 128 word) = mask 2" by (simp add: mask_eq_exp_minus_1)
  have "(8 :: 128 word) = 2 ^ 3" by simp
  then have eight: "bit (8 :: 128 word) n \<longleftrightarrow> n = 3"
    by (simp only: bit_exp_iff) (auto simp: possible_bit_word)
  show "bit (drop_bit 60 (uuid4 r) AND 15) n = bit (8 OR (drop_bit 60 r AND 3)) n"
  proof (cases "n < 4")
    case True
    then have "n = 0 \<or> n = 1 \<or> n = 2 \<or> n = 3" by (rule lt4_cases)
    then show ?thesis
      by (auto simp add: uuid4_def bit_simps)
  next
    case False
    then show ?thesis using eight by (auto simp add: fifteen_mask three bit_simps)
  qed
qed

lemma variant_nibble: "hex_digit (nibble (uuid4 r) 16) \<in> set ''89ab''"
proof -
  define lo where "lo = drop_bit 60 r AND 3"
  have n: "nibble (uuid4 r) 16 = unat (8 OR lo)"
    by (simp add: nibble_def lo_def variant_bits)
  have "lo \<le> 3" unfolding lo_def by (rule word_and_le1)
  then have "unat lo \<le> unat (3 :: 128 word)" by (simp only: word_le_nat_alt)
  then have "unat lo < 4" by simp
  then have "unat lo = 0 \<or> unat lo = 1 \<or> unat lo = 2 \<or> unat lo = 3" by (rule lt4_cases)
  then have "lo = 0 \<or> lo = 1 \<or> lo = 2 \<or> lo = 3" by (simp add: word_unat_eq_iff)
  then show ?thesis by (auto simp: n hex_digit_def)
qed

lemma hex_digit_inj: "a < 16 \<Longrightarrow> b < 16 \<Longrightarrow> hex_digit a = hex_digit b \<Longrightarrow> a = b"
proof -
  assume a: "a < 16" and b: "b < 16" and e: "hex_digit a = hex_digit b"
  have d: "distinct ''0123456789abcdef''" by simp
  have l: "length ''0123456789abcdef'' = 16" by simp
  from nth_eq_iff_index_eq [OF d, of a b] a b e l show "a = b"
    unfolding hex_digit_def by simp
qed

lemma nibble_eq_of_hex32:
  assumes "hex32 x = hex32 y" and "i < 32"
  shows "nibble x i = nibble y i"
proof -
  from assms have "hex_digit (nibble x i) = hex_digit (nibble y i)"
    by (metis nth_hex32)
  then show ?thesis by (rule hex_digit_inj [OF nibble_lt nibble_lt])
qed

lemma bit_of_nibble:
  assumes "n < 128"
  shows "bit (x :: 128 word) n \<longleftrightarrow> bit (drop_bit (4 * (31 - (31 - n div 4))) x AND 15) (n mod 4)"
proof -
  from assms have "n div 4 \<le> 31" by simp
  then have i: "31 - (31 - n div 4) = n div 4" by simp
  have "4 * (n div 4) + n mod 4 = n" by simp
  moreover have "n mod 4 < 128" by (rule less_trans [of _ 4]) simp_all
  ultimately show ?thesis
    by (simp add: i fifteen_mask bit_simps)
qed

lemma hex32_inj: "hex32 x = hex32 y \<Longrightarrow> x = y"
proof (rule bit_word_eqI)
  fix n :: nat
  assume e: "hex32 x = hex32 y" and "n < LENGTH(128)"
  then have n: "n < 128" by simp
  then have "31 - n div 4 < 32" by simp
  with e have "nibble x (31 - n div 4) = nibble y (31 - n div 4)"
    by (rule nibble_eq_of_hex32)
  then have "drop_bit (4 * (31 - (31 - n div 4))) x AND 15 =
      drop_bit (4 * (31 - (31 - n div 4))) y AND 15"
    by (simp add: nibble_def flip: word_unat_eq_iff)
  then show "bit x n = bit y n"
    by (simp only: bit_of_nibble [OF n])
qed

lemma hyphen_not_hex: "is_hex c \<Longrightarrow> c \<noteq> CHR ''-''"
  by (auto simp: is_hex_def)

lemma filter_hex: "list_all is_hex xs \<Longrightarrow> filter (\<lambda>c. c \<noteq> CHR ''-'') xs = xs"
  by (induction xs) (auto simp: hyphen_not_hex)

lemma hex32_of_str_uuid: "filter (\<lambda>c. c \<noteq> CHR ''-'') (str_uuid u) = hex32 u"
proof -
  define h where "h = hex32 u"
  have hx: "list_all is_hex h" by (simp add: h_def list_all_is_hex_hex32)
  have "filter (\<lambda>c. c \<noteq> CHR ''-'') (str_uuid u) =
      take 8 h @ take 4 (drop 8 h) @ take 4 (drop 12 h) @ take 4 (drop 16 h) @ drop 20 h"
    by (simp add: str_uuid_def Let_def h_def [symmetric] filter_hex list_all_take list_all_drop hx)
  also have "\<dots> = take 8 h @ take 4 (drop 8 h) @ take 4 (drop 12 h) @ drop 16 h"
    using append_take_drop_id [of 4 "drop 16 h"] by simp
  also have "\<dots> = take 8 h @ take 4 (drop 8 h) @ drop 12 h"
    using append_take_drop_id [of 4 "drop 12 h"] by simp
  also have "\<dots> = take 8 h @ drop 8 h"
    using append_take_drop_id [of 4 "drop 8 h"] by simp
  finally show ?thesis by (simp add: h_def)
qed

lemma str_uuid_inj: "str_uuid u = str_uuid v \<Longrightarrow> u = v"
proof -
  assume "str_uuid u = str_uuid v"
  then have "hex32 u = hex32 v"
    by (simp only: hex32_of_str_uuid [symmetric])
  then show "u = v" by (rule hex32_inj)
qed

lemma random_bits_uuid4: "random_bits (uuid4 r) = random_bits r"
  unfolding random_bits_def uuid4_def
  by (simp add: bit.conj_disj_distrib2 and.assoc)

subsection \<open>The pipeline\<close>

lemma attempt_frame:
  assumes "attempt w = (f, w1)"
  shows "container w1 = container w" and "open_clients w1 = open_clients w"
    and "sent w1 = sent w" and "attempts w1 = Suc (attempts w)"
    and "faults w1 = tl (faults w)"
  using assms by (auto simp: attempt_def split: list.splits)

lemma attempt_served: "serves_next w \<Longrightarrow> fst (attempt w) = None"
  by (auto simp: attempt_def serves_next_def split: list.splits)

lemma attempt_head: "faults w = f # fs \<Longrightarrow> fst (attempt w) = f"
  by (simp add: attempt_def)

lemma send_with_retry_frame:
  "send_with_retry n w = (res, w1) \<Longrightarrow>
     container w1 = container w \<and> open_clients w1 = open_clients w \<and> sent w1 = sent w"
proof (induction n arbitrary: w)
  case 0
  then show ?case
    by (auto split: prod.splits option.splits fault.splits dest: attempt_frame)
next
  case (Suc n)
  obtain f w2 where a: "attempt w = (f, w2)" by (cases "attempt w")
  show ?case
  proof (cases f)
    case None
    with a Suc.prems show ?thesis by (auto dest: attempt_frame)
  next
    case (Some x)
    show ?thesis
    proof (cases x)
      case (Fatal e)
      with a Some Suc.prems show ?thesis by (auto dest: attempt_frame)
    next
      case (Transient e)
      with a Some Suc.prems have "send_with_retry n w2 = (res, w1)" by simp
      from Suc.IH [OF this] attempt_frame(1-3) [OF a] show ?thesis by simp
    qed
  qed
qed

lemma send_with_retry_attempts:
  "send_with_retry n w = (res, w1) \<Longrightarrow>
     attempts w < attempts w1 \<and> attempts w1 \<le> attempts w + Suc n"
proof (induction n arbitrary: w)
  case 0
  then show ?case
    by (auto split: prod.splits option.splits fault.splits dest: attempt_frame(4))
next
  case (Suc n)
  obtain f w2 where a: "attempt w = (f, w2)" by (cases "attempt w")
  show ?case
  proof (cases f)
    case None
    with a Suc.prems show ?thesis by (auto dest: attempt_frame(4))
  next
    case (Some x)
    show ?thesis
    proof (cases x)
      case (Fatal e)
      with a Some Suc.prems show ?thesis by (auto dest: attempt_frame(4))
    next
      case (Transient e)
      with a Some Suc.prems have "send_with_retry n w2 = (res, w1)" by simp
      from Suc.IH [OF this] attempt_frame(4) [OF a] show ?thesis by simp
    qed
  qed
qed

lemma send_with_retry_served:
  assumes "serves_next w"
  shows "send_with_retry n w = (None, snd (attempt w))"
proof -
  from assms have "attempt w = (None, snd (attempt w))"
    using attempt_served [of w] by (simp add: prod_eq_iff)
  then show ?thesis by (cases n) (auto split: prod.splits)
qed

lemma send_with_retry_fatal:
  assumes "faults w = Some (Fatal e) # fs"
  shows "send_with_retry n w = (Some e, snd (attempt w))"
proof -
  from assms have "attempt w = (Some (Fatal e), snd (attempt w))"
    using attempt_head [of w] by (simp add: prod_eq_iff)
  then show ?thesis by (cases n) (auto split: prod.splits)
qed

lemma send_request_frame:
  assumes "send_request q w = (res, w1)"
  shows "container w1 = container w" and "open_clients w1 = open_clients w"
    and "sent w1 = sent w @ [q]"
  using send_with_retry_frame [of retry_total "w\<lparr>sent := sent w @ [q]\<rparr>" res w1] assms
  by (simp_all add: send_request_def)

lemma send_request_attempts:
  assumes "send_request q w = (res, w1)"
  shows "attempts w < attempts w1" and "attempts w1 \<le> attempts w + Suc retry_total"
  using send_with_retry_attempts [of retry_total "w\<lparr>sent := sent w @ [q]\<rparr>" res w1] assms
  by (simp_all add: send_request_def)

lemma send_request_served:
  assumes "serves_next w"
  shows "fst (send_request q w) = None"
    and "faults (snd (send_request q w)) = tl (faults w)"
    and "attempts (snd (send_request q w)) = Suc (attempts w)"
proof -
  let ?w = "w\<lparr>sent := sent w @ [q]\<rparr>"
  from assms have s: "serves_next ?w" by (simp add: serves_next_def)
  obtain f w1 where a: "attempt ?w = (f, w1)" by (cases "attempt ?w")
  from send_with_retry_served [OF s, of retry_total] a
  have "send_request q w = (None, w1)" by (simp add: send_request_def)
  with attempt_frame(4,5) [OF a]
  show "fst (send_request q w) = None"
    and "faults (snd (send_request q w)) = tl (faults w)"
    and "attempts (snd (send_request q w)) = Suc (attempts w)"
    by simp_all
qed

lemma send_request_fatal:
  assumes "faults w = Some (Fatal e) # fs"
  shows "fst (send_request q w) = Some e"
    and "faults (snd (send_request q w)) = fs"
    and "attempts (snd (send_request q w)) = Suc (attempts w)"
proof -
  let ?w = "w\<lparr>sent := sent w @ [q]\<rparr>"
  from assms have s: "faults ?w = Some (Fatal e) # fs" by simp
  obtain f w1 where a: "attempt ?w = (f, w1)" by (cases "attempt ?w")
  from send_with_retry_fatal [OF s, of retry_total] a
  have "send_request q w = (Some e, w1)" by (simp add: send_request_def)
  with attempt_frame(4,5) [OF a] assms
  show "fst (send_request q w) = Some e"
    and "faults (snd (send_request q w)) = fs"
    and "attempts (snd (send_request q w)) = Suc (attempts w)"
    by simp_all
qed

subsection \<open>Outcomes of the uploader\<close>

lemma upload_blob_Inr:
  assumes "upload_blob name c md ct w = (Inr u, w')"
  shows "name \<notin> fst ` set (container w)"
    and "container w' = container w @
           [(name, \<lparr>blob_data = c, blob_metadata = md, blob_content_type = ct\<rparr>)]"
    and "open_clients w' = open_clients w"
    and "sent w' = sent w @ [Upload_blob name]"
proof -
  obtain res w1 where s: "send_request (Upload_blob name) w = (res, w1)"
    by (cases "send_request (Upload_blob name) w")
  note f = send_request_frame [OF s]
  from assms s f
  show "name \<notin> fst ` set (container w)"
    and "container w' = container w @
           [(name, \<lparr>blob_data = c, blob_metadata = md, blob_content_type = ct\<rparr>)]"
    and "open_clients w' = open_clients w"
    and "sent w' = sent w @ [Upload_blob name]"
    by (auto simp: upload_blob_def split: option.splits if_splits)
qed

lemma upload_blob_Inl:
  assumes "upload_blob name c md ct w = (Inl e, w')"
  shows "container w' = container w"
    and "open_clients w' = open_clients w"
    and "sent w' = sent w @ [Upload_blob name]"
proof -
  obtain res w1 where s: "send_request (Upload_blob name) w = (res, w1)"
    by (cases "send_request (Upload_blob name) w")
  note f = send_request_frame [OF s]
  from assms s f
  show "container w' = container w"
    and "open_clients w' = open_clients w"
    and "sent w' = sent w @ [Upload_blob name]"
    by (auto simp: upload_blob_def split: option.splits if_splits)
qed

lemma upload_blob_served:
  assumes "serves_next w"
  shows "fst (upload_blob name c md ct w) =
      (if name \<in> fst ` set (container w) then Inl ResourceExistsError else Inr ())"
    and "faults (snd (upload_blob name c md ct w)) = tl (faults w)"
    and "attempts (snd (upload_blob name c md ct w)) = Suc (attempts w)"
proof -
  obtain res w1 where s: "send_request (Upload_blob name) w = (res, w1)"
    by (cases "send_request (Upload_blob name) w")
  note f = send_request_frame [OF s]
  from send_request_served [OF assms, of "Upload_blob name"] s
  have "res = None" and "faults w1 = tl (faults w)" and "attempts w1 = Suc (attempts w)"
    by simp_all
  with s f
  show "fst (upload_blob name c md ct w) =
      (if name \<in> fst ` set (container w) then Inl ResourceExistsError else Inr ())"
    and "faults (snd (upload_blob name c md ct w)) = tl (faults w)"
    and "attempts (snd (upload_blob name c md ct w)) = Suc (attempts w)"
    by (simp_all add: upload_blob_def)
qed

lemma upload_blob_fatal:
  assumes "faults w = Some (Fatal e) # fs"
  shows "fst (upload_blob name c md ct w) = Inl (StoreError e)"
    and "faults (snd (upload_blob name c md ct w)) = fs"
    and "attempts (snd (upload_blob name c md ct w)) = Suc (attempts w)"
proof -
  obtain res w1 where s: "send_request (Upload_blob name) w = (res, w1)"
    by (cases "send_request (Upload_blob name) w")
  from send_request_fatal [OF assms, of "Upload_blob name"] s
  have "res = Some e" and "faults w1 = fs" and "attempts w1 = Suc (attempts w)"
    by simp_all
  with s
  show "fst (upload_blob name c md ct w) = Inl (StoreError e)"
    and "faults (snd (upload_blob name c md ct w)) = fs"
    and "attempts (snd (upload_blob name c md ct w)) = Suc (attempts w)"
    by (simp_all add: upload_blob_def)
qed

lemma upload_blob_attempts:
  "attempts w < attempts (snd (upload_blob name c md ct w)) \<and>
   attempts (snd (upload_blob name c md ct w)) \<le> attempts w + Suc retry_total"
proof -
  obtain res w1 where s: "send_request (Upload_blob name) w = (res, w1)"
    by (cases "send_request (Upload_blob name) w")
  from send_request_attempts [OF s] s show ?thesis
    by (auto simp: upload_blob_def split: option.splits)
qed

text \<open>The uploader, as its one client call between \<open>new_client\<close> and \<open>close_client\<close>.\<close>

lemma upload_unfold:
  "add_file_and_metadata_to_blob_storage r fn c ct w =
     (case upload_blob (new_filename r fn) c (upload_metadata r fn) ct
             (new_client (BlobClient (new_filename r fn)) w) of
        (Inl e, w2) \<Rightarrow> (Inl e, w2)
      | (Inr u, w2) \<Rightarrow> (Inr (), close_client (BlobClient (new_filename r fn)) w2))"
  by (simp add: add_file_and_metadata_to_blob_storage_def Let_def)

lemma upload_Inr:
  assumes "add_file_and_metadata_to_blob_storage r fn c ct w = (Inr u, w')"
  shows "new_filename r fn \<notin> fst ` set (container w)"
    and "container w' = container w @ [(new_filename r fn, stored_object r fn c ct)]"
    and "open_clients w' = open_clients w"
    and "sent w' = sent w @ [Upload_blob (new_filename r fn)]"
proof -
  let ?k = "new_filename r fn"
  let ?w1 = "new_client (BlobClient ?k) w"
  obtain res w2 where b: "upload_blob ?k c (upload_metadata r fn) ct ?w1 = (res, w2)"
    by (cases "upload_blob ?k c (upload_metadata r fn) ct ?w1")
  with assms obtain u' where r: "res = Inr u'" and w': "w' = close_client (BlobClient ?k) w2"
    by (auto simp: upload_unfold split: sum.splits)
  note i = upload_blob_Inr [OF b [unfolded r]]
  from i w'
  show "new_filename r fn \<notin> fst ` set (container w)"
    and "container w' = container w @ [(new_filename r fn, stored_object r fn c ct)]"
    and "open_clients w' = open_clients w"
    and "sent w' = sent w @ [Upload_blob (new_filename r fn)]"
    by (simp_all add: new_client_def close_client_def stored_object_def)
qed

lemma upload_Inl:
  assumes "add_file_and_metadata_to_blob_storage r fn c ct w = (Inl e, w')"
  shows "container w' = container w"
    and "open_clients w' = BlobClient (new_filename r fn) # open_clients w"
    and "sent w' = sent w @ [Upload_blob (new_filename r fn)]"
proof -
  let ?k = "new_filename r fn"
  let ?w1 = "new_client (BlobClient ?k) w"
  obtain res w2 where b: "upload_blob ?k c (upload_metadata r fn) ct ?w1 = (res, w2)"
    by (cases "upload_blob ?k c (upload_metadata r fn) ct ?w1")
  with assms have r: "res = Inl e" and w': "w' = w2"
    by (auto simp: upload_unfold split: sum.splits)
  note i = upload_blob_Inl [OF b [unfolded r]]
  from i w'
  show "container w' = container w"
    and "open_clients w' = BlobClient (new_filename r fn) # open_clients w"
    and "sent w' = sent w @ [Upload_blob (new_filename r fn)]"
    by (simp_all add: new_client_def)
qed

lemma upload_is_store_result:
  "fst (add_file_and_metadata_to_blob_storage r fn c ct w) =
     fst (upload_blob (new_filename r fn) c (upload_metadata r fn) ct
            (new_client (BlobClient (new_filename r fn)) w))"
  by (auto simp: upload_unfold split: prod.splits sum.splits)

lemma upload_faults:
  "faults (snd (add_file_and_metadata_to_blob_storage r fn c ct w)) =
     faults (snd (upload_blob (new_filename r fn) c (upload_metadata r fn) ct
            (new_client (BlobClient (new_filename r fn)) w)))"
  by (auto simp: upload_unfold close_client_def split: prod.splits sum.splits)

lemma upload_attempts_eq:
  "attempts (snd (add_file_and_metadata_to_blob_storage r fn c ct w)) =
     attempts (snd (upload_blob (new_filename r fn) c (upload_metadata r fn) ct
            (new_client (BlobClient (new_filename r fn)) w)))"
  by (auto simp: upload_unfold close_client_def split: prod.splits sum.splits)

lemma upload_succeeds:
  assumes "serves_next w" and "new_filename r fn \<notin> fst ` set (container w)"
  shows "fst (add_file_and_metadata_to_blob_storage r fn c ct w) = Inr ()"
proof -
  from assms(1) have "serves_next (new_client (BlobClient (new_filename r fn)) w)"
    by (simp add: serves_next_def new_client_def)
  from upload_blob_served(1) [OF this] assms(2) show ?thesis
    by (simp add: upload_is_store_result new_client_def)
qed

lemma upload_exists:
  assumes "serves_next w" and "new_filename r fn \<in> fst ` set (container w)"
  shows "fst (add_file_and_metadata_to_blob_storage r fn c ct w) = Inl ResourceExistsError"
proof -
  from assms(1) have "serves_next (new_client (BlobClient (new_filename r fn)) w)"
    by (simp add: serves_next_def new_client_def)
  from upload_blob_served(1) [OF this] assms(2) show ?thesis
    by (simp add: upload_is_store_result new_client_def)
qed

lemma upload_served_faults:
  assumes "serves_next w"
  shows "faults (snd (add_file_and_metadata_to_blob_storage r fn c ct w)) = tl (faults w)"
proof -
  from assms have "serves_next (new_client (BlobClient (new_filename r fn)) w)"
    by (simp add: serves_next_def new_client_def)
  from upload_blob_served(2) [OF this] show ?thesis
    by (simp add: upload_faults new_client_def)
qed

lemma upload_sent:
  "sent (snd (add_file_and_metadata_to_blob_storage r fn c ct w)) =
     sent w @ [Upload_blob (new_filename r fn)]"
proof (cases "add_file_and_metadata_to_blob_storage r fn c ct w")
  case (Pair res w')
  then show ?thesis
    by (cases res) (simp_all add: upload_Inl(3) upload_Inr(4))
qed

lemma upload_fatal:
  assumes "faults w = Some (Fatal e) # fs"
  shows "fst (add_file_and_metadata_to_blob_storage r fn c ct w) = Inl (StoreError e)"
    and "faults (snd (add_file_and_metadata_to_blob_storage r fn c ct w)) = fs"
    and "attempts (snd (add_file_and_metadata_to_blob_storage r fn c ct w)) = Suc (attempts w)"
proof -
  from assms have "faults (new_client (BlobClient (new_filename r fn)) w) = Some (Fatal e) # fs"
    by (simp add: new_client_def)
  note f = upload_blob_fatal [OF this]
  from f(1) show "fst (add_file_and_metadata_to_blob_storage r fn c ct w) = Inl (StoreError e)"
    by (simp add: upload_is_store_result)
  from f(2) show "faults (snd (add_file_and_metadata_to_blob_storage r fn c ct w)) = fs"
    by (simp add: upload_faults)
  from f(3) show "attempts (snd (add_file_and_metadata_to_blob_storage r fn c ct w)) =
      Suc (attempts w)"
    by (simp add: upload_attempts_eq new_client_def)
qed

lemma upload_attempts:
  "attempts w < attempts (snd (add_file_and_metadata_to_blob_storage r fn c ct w)) \<and>
   attempts (snd (add_file_and_metadata_to_blob_storage r fn c ct w)) \<le>
     attempts w + Suc retry_total"
  using upload_blob_attempts [of "new_client (BlobClient (new_filename r fn)) w"
      "new_filename r fn" c "upload_metadata r fn" ct]
  by (simp add: upload_attempts_eq new_client_def)

subsection \<open>Outcomes of the lister\<close>

lemma blob_entry_Inr: "blob_entry md = Inr entry \<longleftrightarrow> is_display_record md entry"
  by (auto simp: blob_entry_def getitem_def is_display_record_def image_url_def
      split: option.splits)

lemma blob_entry_Inl:
  "blob_entry md = Inl e \<Longrightarrow> \<exists>k \<in> set expected_keys. e = KeyError k \<and> map_of md k = None"
  by (auto simp: blob_entry_def getitem_def expected_keys_def split: option.splits)

lemma blob_entry_total:
  "has_expected_keys md \<Longrightarrow> \<exists>entry. blob_entry md = (Inr entry :: 'e error + dict)"
  by (auto simp: blob_entry_def getitem_def has_expected_keys_def expected_keys_def)

lemma blob_entry_fails:
  "\<not> has_expected_keys md \<Longrightarrow> \<exists>e. blob_entry md = (Inl e :: 'e error + dict)"
  by (auto simp: blob_entry_def getitem_def has_expected_keys_def expected_keys_def
      split: option.splits)

lemma gallery_loop_Inr:
  "gallery_loop bs acc = (Inr out :: 'e error + dict list) \<Longrightarrow>
     \<exists>es. out = acc @ es \<and>
       list_all2 (\<lambda>blob entry. is_display_record (blob_metadata (snd blob)) entry) bs es"
proof (induction bs arbitrary: acc)
  case Nil
  then show ?case by simp
next
  case (Cons b bs)
  show ?case
  proof (cases "blob_entry (blob_metadata (snd b)) :: 'e error + dict")
    case (Inl e)
    with Cons.prems show ?thesis by simp
  next
    case (Inr entry)
    with Cons.prems have "gallery_loop bs (acc @ [entry]) = (Inr out :: 'e error + dict list)"
      by simp
    from Cons.IH [OF this] obtain es where "out = (acc @ [entry]) @ es"
      and "list_all2 (\<lambda>blob entry. is_display_record (blob_metadata (snd blob)) entry) bs es"
      by blast
    with Inr show ?thesis
      by (intro exI [of _ "entry # es"]) (simp add: blob_entry_Inr)
  qed
qed

lemma gallery_loop_Inl:
  "gallery_loop bs acc = (Inl e :: 'e error + dict list) \<Longrightarrow>
     \<exists>blob \<in> set bs. \<exists>k \<in> set expected_keys.
        e = KeyError k \<and> map_of (blob_metadata (snd blob)) k = None"
proof (induction bs arbitrary: acc)
  case Nil
  then show ?case by simp
next
  case (Cons b bs)
  show ?case
  proof (cases "blob_entry (blob_metadata (snd b)) :: 'e error + dict")
    case (Inl e')
    with Cons.prems have "e' = e" by simp
    with Inl blob_entry_Inl [of "blob_metadata (snd b)" e] show ?thesis by auto
  next
    case (Inr entry)
    with Cons.prems have "gallery_loop bs (acc @ [entry]) = Inl e" by simp
    from Cons.IH [OF this] show ?thesis by auto
  qed
qed

lemma gallery_loop_total:
  "list_all (\<lambda>blob. has_expected_keys (blob_metadata (snd blob))) bs \<Longrightarrow>
     \<exists>out. gallery_loop bs acc = (Inr out :: 'e error + dict list)"
proof (induction bs arbitrary: acc)
  case Nil
  show ?case by simp
next
  case (Cons b bs)
  then have "has_expected_keys (blob_metadata (snd b))" by simp
  from blob_entry_total [OF this] obtain entry where
    "blob_entry (blob_metadata (snd b)) = (Inr entry :: 'e error + dict)" by blast
  moreover from Cons obtain out where
    "gallery_loop bs (acc @ [entry]) = (Inr out :: 'e error + dict list)" by auto
  ultimately show ?case by simp
qed

lemma gallery_loop_fails:
  "\<not> list_all (\<lambda>blob. has_expected_keys (blob_metadata (snd blob))) bs \<Longrightarrow>
     \<exists>e. gallery_loop bs acc = (Inl e :: 'e error + dict list)"
proof (induction bs arbitrary: acc)
  case Nil
  then show ?case by simp
next
  case (Cons b bs)
  show ?case
  proof (cases "blob_entry (blob_metadata (snd b)) :: 'e error + dict")
    case (Inl e')
    then show ?thesis by simp
  next
    case (Inr entry)
    then have "has_expected_keys (blob_metadata (snd b))"
      using blob_entry_fails [of "blob_metadata (snd b)", where 'e = 'e] by auto
    with Cons.prems have "\<not> list_all (\<lambda>blob. has_expected_keys (blob_metadata (snd blob))) bs"
      by simp
    from Cons.IH [OF this, of "acc @ [entry]"] Inr show ?thesis by simp
  qed
qed

lemma list_blobs_Inr:
  assumes "list_blobs w = (Inr listing, w')"
  shows "listing = container w" and "container w' = container w"
    and "open_clients w' = open_clients w" and "sent w' = sent w @ [List_blobs]"
proof -
  obtain res w1 where s: "send_request List_blobs w = (res, w1)"
    by (cases "send_request List_blobs w")
  note f = send_request_frame [OF s]
  from assms s f
  show "listing = container w" and "container w' = container w"
    and "open_clients w' = open_clients w" and "sent w' = sent w @ [List_blobs]"
    by (auto simp: list_blobs_def split: option.splits)
qed

lemma list_blobs_Inl:
  assumes "list_blobs w = (Inl e, w')"
  shows "container w' = container w"
    and "open_clients w' = open_clients w" and "sent w' = sent w @ [List_blobs]"
proof -
  obtain res w1 where s: "send_request List_blobs w = (res, w1)"
    by (cases "send_request List_blobs w")
  note f = send_request_frame [OF s]
  from assms s f
  show "container w' = container w"
    and "open_clients w' = open_clients w" and "sent w' = sent w @ [List_blobs]"
    by (auto simp: list_blobs_def split: option.splits)
qed

lemma list_blobs_served:
  assumes "serves_next w"
  shows "fst (list_blobs w) = Inr (container w)"
proof -
  obtain res w1 where s: "send_request List_blobs w = (res, w1)"
    by (cases "send_request List_blobs w")
  from send_request_served(1) [OF assms, of List_blobs] s have "res = None" by simp
  with s send_request_frame(1) [OF s] show ?thesis
    by (simp add: list_blobs_def)
qed

text \<open>The lister, as its one client call and its loop.\<close>

lemma gallery_unfold:
  "gallery request w =
     (case list_blobs (new_client ContainerClient (new_client BlobServiceClient w)) of
        (Inl e, w3) \<Rightarrow> (Inl e, w3)
      | (Inr listing, w3) \<Rightarrow>
          (case gallery_loop listing [] of
             Inl e \<Rightarrow> (Inl e, w3)
           | Inr blobs_list \<Rightarrow>
               (Inr (TemplateResponse ''gallery.html'' request blobs_list),
                close_client BlobServiceClient (close_client ContainerClient w3))))"
  by (simp add: gallery_def Let_def)

lemma gallery_Inr:
  fixes w :: "'e world"
  assumes "gallery request w = (Inr resp, w')"
  shows "\<exists>blobs_list. resp = TemplateResponse ''gallery.html'' request blobs_list \<and>
           list_all2 (\<lambda>blob entry. is_display_record (blob_metadata (snd blob)) entry)
             (container w) blobs_list"
    and "open_clients w' = open_clients w"
    and "container w' = container w"
    and "sent w' = sent w @ [List_blobs]"
proof -
  let ?w2 = "new_client ContainerClient (new_client BlobServiceClient w)"
  obtain res w3 where l: "list_blobs ?w2 = (res, w3)" by (cases "list_blobs ?w2")
  with assms obtain listing blobs_list where r: "res = Inr listing"
    and g: "gallery_loop listing [] = (Inr blobs_list :: 'e error + dict list)"
    and e: "resp = TemplateResponse ''gallery.html'' request blobs_list"
    and w': "w' = close_client BlobServiceClient (close_client ContainerClient w3)"
    by (auto simp: gallery_unfold split: sum.splits)
  note i = list_blobs_Inr [OF l [unfolded r]]
  from i(1) have c: "listing = container w" by (simp add: new_client_def)
  from gallery_loop_Inr [OF g] c e
  show "\<exists>blobs_list. resp = TemplateResponse ''gallery.html'' request blobs_list \<and>
      list_all2 (\<lambda>blob entry. is_display_record (blob_metadata (snd blob)) entry)
        (container w) blobs_list"
    by auto
  from i w'
  show "open_clients w' = open_clients w"
    and "container w' = container w"
    and "sent w' = sent w @ [List_blobs]"
    by (simp_all add: new_client_def close_client_def)
qed

lemma gallery_Inl:
  fixes w :: "'e world"
  assumes "gallery request w = (Inl e, w')"
  shows "open_clients w' = ContainerClient # BlobServiceClient # open_clients w"
    and "container w' = container w"
    and "sent w' = sent w @ [List_blobs]"
proof -
  let ?w2 = "new_client ContainerClient (new_client BlobServiceClient w)"
  obtain res w3 where l: "list_blobs ?w2 = (res, w3)" by (cases "list_blobs ?w2")
  have "open_clients w' = open_clients ?w2 \<and> container w' = container ?w2 \<and>
      sent w' = sent ?w2 @ [List_blobs]"
  proof (cases res)
    case (Inl e')
    with assms l have "w' = w3" by (simp add: gallery_unfold)
    with list_blobs_Inl [OF l [unfolded Inl]] show ?thesis by simp
  next
    case (Inr listing)
    with assms l have "w' = w3"
      by (auto simp: gallery_unfold split: sum.splits)
    with list_blobs_Inr(2-4) [OF l [unfolded Inr]] show ?thesis by simp
  qed
  then show "open_clients w' = ContainerClient # BlobServiceClient # open_clients w"
    and "container w' = container w"
    and "sent w' = sent w @ [List_blobs]"
    by (simp_all add: new_client_def)
qed

lemma gallery_served:
  fixes w :: "'e world"
  assumes "serves_next w"
  shows "fst (gallery request w) =
     (case gallery_loop (container w) [] of
        Inl e \<Rightarrow> Inl e
      | Inr blobs_list \<Rightarrow> Inr (TemplateResponse ''gallery.html'' request blobs_list))"
proof -
  let ?w2 = "new_client ContainerClient (new_client BlobServiceClient w)"
  from assms have "serves_next ?w2" by (simp add: serves_next_def new_client_def)
  from list_blobs_served [OF this] have "fst (list_blobs ?w2) = Inr (container w)"
    by (simp add: new_client_def)
  then show ?thesis
    by (auto simp: gallery_unfold split: prod.splits sum.splits)
qed

lemma gallery_succeeds:
  fixes w :: "'e world"
  assumes "serves_next w"
    and "list_all (\<lambda>blob. has_expected_keys (blob_metadata (snd blob))) (container w)"
  shows "\<exists>resp. fst (gallery request w) = Inr resp"
proof -
  from gallery_loop_total [OF assms(2), of "[]", where 'e = 'e]
  obtain out where "gallery_loop (container w) [] = (Inr out :: 'e error + dict list)" by blast
  with gallery_served [OF assms(1), of request] show ?thesis by simp
qed

lemma gallery_KeyError:
  fixes w :: "'e world"
  assumes "serves_next w"
    and "\<not> list_all (\<lambda>blob. has_expected_keys (blob_metadata (snd blob))) (container w)"
  shows "\<exists>blob \<in> set (container w). \<exists>k \<in> set expected_keys.
           fst (gallery request w) = Inl (KeyError k) \<and>
           map_of (blob_metadata (snd blob)) k = None"
proof -
  from gallery_loop_fails [OF assms(2), of "[]", where 'e = 'e]
  obtain e where l: "gallery_loop (container w) [] = (Inl e :: 'e error + dict list)" by blast
  from gallery_loop_Inl [OF l] obtain blob k where
    "blob \<in> set (container w)" "k \<in> set expected_keys" "e = KeyError k"
    "map_of (blob_metadata (snd blob)) k = None" by blast
  with l gallery_served [OF assms(1), of request] show ?thesis by auto
qed

subsection \<open>Generated names\<close>

lemma file_uuid_str_syntax: "is_uuid4_syntax (file_uuid_str r)"
  unfolding file_uuid_str_def by (rule str_uuid_syntax [OF version_nibble variant_nibble])

lemma extension_suffix:
  "CHR ''.'' \<notin> set suf \<Longrightarrow> extension (pre @ ''.'' @ suf) = lower suf"
  by (simp add: extension_def last_str_split_append)

lemma extension_no_dot: "CHR ''.'' \<notin> set file_name \<Longrightarrow> extension file_name = lower file_name"
  by (simp add: extension_def str_split_no_sep)

lemma file_uuid_str_draw_a:
  "file_uuid_str draw_a = ''01234567-89ab-4def-8123-456789abcdef''"
  by (simp add: draw_a_def file_uuid_str_def str_uuid_def uuid4_def hex32_def nibble_def
      hex_digit_def upt_rec)

lemma file_uuid_str_draw_b:
  "file_uuid_str draw_b = ''fedcba98-7654-4210-bedc-ba9876543210''"
  by (simp add: draw_b_def file_uuid_str_def str_uuid_def uuid4_def hex32_def nibble_def
      hex_digit_def upt_rec)

lemma extension_clip: "extension ''clip.MP4'' = ''mp4''"
  by (simp add: extension_def lower_def lower_char_def)

lemma extension_noext: "extension ''noext'' = ''noext''"
  by (simp add: extension_def lower_def lower_char_def)

lemma file_uuid_str_inj: "file_uuid_str r1 = file_uuid_str r2 \<Longrightarrow> random_bits r1 = random_bits r2"
proof -
  assume "file_uuid_str r1 = file_uuid_str r2"
  then have "uuid4 r1 = uuid4 r2" unfolding file_uuid_str_def by (rule str_uuid_inj)
  then have "random_bits (uuid4 r1) = random_bits (uuid4 r2)" by simp
  then show ?thesis by (simp only: random_bits_uuid4)
qed

lemma new_filename_eq_iff:
  "new_filename r1 fn = new_filename r2 fn \<longleftrightarrow> file_uuid_str r1 = file_uuid_str r2"
  by (simp add: new_filename_def)

section \<open>The example inputs, evaluated\<close>

lemmas upload_defs =
  add_file_and_metadata_to_blob_storage_def upload_blob_def send_request_def retry_total_def
  numeral_3_eq_3 attempt_def new_client_def close_client_def Let_def

lemmas gallery_defs =
  gallery_def list_blobs_def send_request_def retry_total_def numeral_3_eq_3 attempt_def
  new_client_def close_client_def Let_def

lemma new_filename_draw_a:
  "new_filename draw_a ''clip.MP4'' = ''01234567-89ab-4def-8123-456789abcdef.mp4''"
  by (simp add: new_filename_def file_uuid_str_draw_a extension_clip)

lemma upload_draw_a:
  "add_file_and_metadata_to_blob_storage draw_a ''clip.MP4'' [1, 2, 3] ''video/mp4'' empty_world =
     (Inr (), world_a)"
  by (simp add: upload_defs new_filename_def upload_metadata_def file_uuid_str_draw_a
      extension_clip empty_world_def world_a_def clip_a_def)

lemma upload_draw_b:
  "add_file_and_metadata_to_blob_storage draw_b ''clip.MP4'' [1, 2, 3] ''video/mp4'' world_a =
     (Inr (), world_ab)"
  by (simp add: upload_defs new_filename_def upload_metadata_def file_uuid_str_draw_b
      extension_clip world_a_def world_ab_def clip_a_def clip_b_def)

lemma upload_draw_a_down:
  "add_file_and_metadata_to_blob_storage draw_a ''clip.MP4'' [1, 2, 3] ''video/mp4'' down_world =
     (Inl (StoreError ()),
      \<lparr>container = [],
       open_clients = [BlobClient ''01234567-89ab-4def-8123-456789abcdef.mp4''],
       sent = [Upload_blob ''01234567-89ab-4def-8123-456789abcdef.mp4''],
       faults = [None], attempts = 1\<rparr>)"
  by (simp add: upload_defs new_filename_def upload_metadata_def file_uuid_str_draw_a
      extension_clip down_world_def)

lemma upload_draw_a_busy:
  "add_file_and_metadata_to_blob_storage draw_a ''clip.MP4'' [1, 2, 3] ''video/mp4'' busy_world =
     (Inr (),
      \<lparr>container = [clip_a], open_clients = [],
       sent = [Upload_blob ''01234567-89ab-4def-8123-456789abcdef.mp4''],
       faults = [], attempts = 2\<rparr>)"
  by (simp add: upload_defs new_filename_def upload_metadata_def file_uuid_str_draw_a
      extension_clip busy_world_def clip_a_def)

lemma upload_draw_a_busy4:
  "add_file_and_metadata_to_blob_storage draw_a ''clip.MP4'' [1, 2, 3] ''video/mp4'' busy4_world =
     (Inl (StoreError ()),
      \<lparr>container = [],
       open_clients = [BlobClient ''01234567-89ab-4def-8123-456789abcdef.mp4''],
       sent = [Upload_blob ''01234567-89ab-4def-8123-456789abcdef.mp4''],
       faults = [None], attempts = 4\<rparr>)"
  by (simp add: upload_defs new_filename_def upload_metadata_def file_uuid_str_draw_a
      extension_clip busy4_world_def)

lemma upload_noext:
  "add_file_and_metadata_to_blob_storage draw_a ''noext'' [1, 2, 3] ''video/mp4'' empty_world =
     (Inr (),
      \<lparr>container =
         [(''01234567-89ab-4def-8123-456789abcdef.noext'',
           stored_object draw_a ''noext'' [1, 2, 3] ''video/mp4'')],
       open_clients = [],
       sent = [Upload_blob ''01234567-89ab-4def-8123-456789abcdef.noext''],
       faults = [], attempts = 1\<rparr>)"
  by (simp add: upload_defs new_filename_def stored_object_def file_uuid_str_draw_a
      extension_noext empty_world_def)

lemma gallery_world_ab:
  "gallery () world_ab =
     (Inr (TemplateResponse ''gallery.html'' () [entry_a, entry_b]),
      world_ab\<lparr>sent := sent world_ab @ [List_blobs], attempts := 3\<rparr>)"
  by (simp add: gallery_defs blob_entry_def getitem_def image_url_def world_ab_def
      clip_a_def clip_b_def entry_a_def entry_b_def)

lemma gallery_foreign_world:
  "gallery () foreign_world =
     (Inl (KeyError ''author''),
      foreign_world\<lparr>open_clients := [ContainerClient, BlobServiceClient],
        sent := [List_blobs], attempts := 1\<rparr>)"
  by (simp add: gallery_defs blob_entry_def getitem_def image_url_def foreign_world_def
      clip_a_def)

lemma serves_all_two:
  assumes "serves_all 2 w"
  shows "serves_next w" and "faults w1 = tl (faults w) \<Longrightarrow> serves_next w1"
proof -
  show "serves_next w"
    using assms by (cases "faults w") (simp_all add: serves_all_def serves_next_def)
  show "serves_next w1" if "faults w1 = tl (faults w)"
  proof (cases "faults w")
    case Nil
    with that show ?thesis by (simp add: serves_next_def)
  next
    case (Cons f fs)
    with assms that show ?thesis
      by (cases fs) (simp_all add: serves_all_def serves_next_def numeral_2_eq_2)
  qed
qed

section \<open>Properties of the uploader\<close>

text \<open>
  C1. For every file name, contents and content type, and every random draw, the id that
  the uploader generates has the syntax of a version-4 UUID, and the name it writes to is
  the id, a dot and the extension, where the extension is the lower-cased part of the file
  name after its last dot. The uploader makes exactly one \<open>upload_blob\<close> call, for that name.
  The upload goes through whenever the service serves the request and the name is new,
  and an upload that goes through adds exactly one object to the container, under that
  name.
\<close>

theorem upload_key_is_uuid4_dot_extension:
  "is_uuid4_syntax (file_uuid_str r) \<and>
   new_filename r file_name = file_uuid_str r @ ''.'' @ extension file_name \<and>
   (\<forall>pre suf. file_name = pre @ ''.'' @ suf \<and> CHR ''.'' \<notin> set suf \<longrightarrow>
      extension file_name = lower suf) \<and>
   sent (snd (add_file_and_metadata_to_blob_storage r file_name file_contents file_content_type w)) =
     sent w @ [Upload_blob (new_filename r file_name)] \<and>
   (serves_next w \<and> new_filename r file_name \<notin> fst ` set (container w) \<longrightarrow>
      fst (add_file_and_metadata_to_blob_storage r file_name file_contents file_content_type w) =
        Inr ()) \<and>
   (\<forall>w'. add_file_and_metadata_to_blob_storage r file_name file_contents file_content_type w =
            (Inr (), w') \<longrightarrow>
      container w' = container w @
        [(new_filename r file_name, stored_object r file_name file_contents file_content_type)])"
proof (intro conjI allI impI)
  show "is_uuid4_syntax (file_uuid_str r)" by (rule file_uuid_str_syntax)
  show "new_filename r file_name = file_uuid_str r @ ''.'' @ extension file_name"
    by (simp add: new_filename_def)
  show "extension file_name = lower suf"
    if "file_name = pre @ ''.'' @ suf \<and> CHR ''.'' \<notin> set suf" for pre suf
    using that extension_suffix [of suf pre] by simp
  show "sent (snd (add_file_and_metadata_to_blob_storage r file_name file_contents
      file_content_type w)) = sent w @ [Upload_blob (new_filename r file_name)]"
    by (rule upload_sent)
  show "fst (add_file_and_metadata_to_blob_storage r file_name file_contents file_content_type w)
      = Inr ()"
    if "serves_next w \<and> new_filename r file_name \<notin> fst ` set (container w)"
    using that by (simp add: upload_succeeds)
  show "container w' = container w @
      [(new_filename r file_name, stored_object r file_name file_contents file_content_type)]"
    if "add_file_and_metadata_to_blob_storage r file_name file_contents file_content_type w =
      (Inr (), w')" for w'
    using that by (rule upload_Inr(2))
qed

theorem upload_key_is_uuid4_dot_extension_witness:
  "is_uuid4_syntax (file_uuid_str draw_a) \<and>
   extension ''clip.MP4'' = lower ''MP4'' \<and>
   fst (add_file_and_metadata_to_blob_storage draw_a ''clip.MP4'' [1, 2, 3] ''video/mp4''
          empty_world) = Inr () \<and>
   container world_a = container empty_world @
     [(new_filename draw_a ''clip.MP4'', stored_object draw_a ''clip.MP4'' [1, 2, 3] ''video/mp4'')]"
proof -
  note t = upload_key_is_uuid4_dot_extension
    [of draw_a "''clip.MP4''" "[1, 2, 3]" "''video/mp4''" empty_world]
  have n: "''clip.MP4'' = ''clip'' @ ''.'' @ ''MP4'' \<and> CHR ''.'' \<notin> set ''MP4''"
    by simp
  have s: "serves_next empty_world \<and>
      new_filename draw_a ''clip.MP4'' \<notin> fst ` set (container empty_world)"
    by (simp add: serves_next_def empty_world_def)
  from t have "is_uuid4_syntax (file_uuid_str draw_a)" by (rule conjunct1)
  moreover from t n have "extension ''clip.MP4'' = lower ''MP4''" by blast
  moreover from t s have "fst (add_file_and_metadata_to_blob_storage draw_a ''clip.MP4''
      [1, 2, 3] ''video/mp4'' empty_world) = Inr ()" by blast
  moreover from t upload_draw_a have "container world_a = container empty_world @
      [(new_filename draw_a ''clip.MP4'',
        stored_object draw_a ''clip.MP4'' [1, 2, 3] ''video/mp4'')]" by blast
  ultimately show ?thesis by simp
qed



text \<open>
  C5. A file name without a dot is not rejected: its extension is the whole name in lower
  case, so the object is written under the id, a dot and the lower-cased file name; the
  upload goes through under the same conditions as any other.
\<close>

theorem upload_without_dot_keeps_whole_name:
  assumes "CHR ''.'' \<notin> set file_name"
  shows "extension file_name = lower file_name \<and>
    new_filename r file_name = file_uuid_str r @ ''.'' @ lower file_name \<and>
    (serves_next w \<and> file_uuid_str r @ ''.'' @ lower file_name \<notin> fst ` set (container w) \<longrightarrow>
       fst (add_file_and_metadata_to_blob_storage r file_name file_contents file_content_type w) =
         Inr () \<and>
       container (snd (add_file_and_metadata_to_blob_storage r file_name file_contents
           file_content_type w)) =
         container w @ [(file_uuid_str r @ ''.'' @ lower file_name,
            stored_object r file_name file_contents file_content_type)])"
proof -
  from assms have e: "extension file_name = lower file_name" by (rule extension_no_dot)
  then have n: "new_filename r file_name = file_uuid_str r @ ''.'' @ lower file_name"
    by (simp add: new_filename_def)
  have "fst (add_file_and_metadata_to_blob_storage r file_name file_contents file_content_type w)
        = Inr () \<and>
      container (snd (add_file_and_metadata_to_blob_storage r file_name file_contents
          file_content_type w)) =
        container w @ [(file_uuid_str r @ ''.'' @ lower file_name,
           stored_object r file_name file_contents file_content_type)]"
    if s: "serves_next w"
      and f: "file_uuid_str r @ ''.'' @ lower file_name \<notin> fst ` set (container w)"
  proof -
    from s f have ok: "fst (add_file_and_metadata_to_blob_storage r file_name file_contents
        file_content_type w) = Inr ()"
      by (simp add: upload_succeeds n)
    then have "add_file_and_metadata_to_blob_storage r file_name file_contents file_content_type w
        = (Inr (), snd (add_file_and_metadata_to_blob_storage r file_name file_contents
             file_content_type w))"
      by (simp add: prod_eq_iff)
    from upload_Inr(2) [OF this] ok show ?thesis by (simp add: n)
  qed
  with e n show ?thesis by blast
qed

theorem upload_without_dot_keeps_whole_name_witness:
  "new_filename draw_a ''noext'' = ''01234567-89ab-4def-8123-456789abcdef.noext'' \<and>
   fst (add_file_and_metadata_to_blob_storage draw_a ''noext'' [1, 2, 3] ''video/mp4''
          empty_world) = Inr () \<and>
   container (snd (add_file_and_metadata_to_blob_storage draw_a ''noext'' [1, 2, 3]
          ''video/mp4'' empty_world)) =
     [(''01234567-89ab-4def-8123-456789abcdef.noext'',
       stored_object draw_a ''noext'' [1, 2, 3] ''video/mp4'')]"
proof -
  have d: "CHR ''.'' \<notin> set ''noext''" by simp
  have l: "lower ''noext'' = ''noext''" by (simp add: lower_def lower_char_def)
  have s: "serves_next empty_world \<and>
      file_uuid_str draw_a @ ''.'' @ lower ''noext'' \<notin> fst ` set (container empty_world)"
    by (simp add: serves_next_def empty_world_def)
  from upload_without_dot_keeps_whole_name
    [OF d, of draw_a empty_world "[1, 2, 3]" "''video/mp4''"] s
  show ?thesis by (simp add: l file_uuid_str_draw_a empty_world_def)
qed



text \<open>
  C7. The id comes from the random draw alone, never from the file: two draws that differ
  in one of the 122 bits \<open>uuid4\<close> keeps give two ids and two names. With such draws, a
  service that serves the next two requests and a container that holds neither name, two
  uploads of the same file name, contents and content type both go through, with two
  distinct ids, and leave two objects under two names, each with the full contents.
  Whatever the draws, two such uploads that both go through have distinct ids and leave
  two objects: nothing is merged with an object that is already there.
\<close>

theorem two_identical_uploads_two_objects:
  "(random_bits r1 \<noteq> random_bits r2 \<longrightarrow>
      file_uuid_str r1 \<noteq> file_uuid_str r2 \<and>
      new_filename r1 file_name \<noteq> new_filename r2 file_name) \<and>
   (random_bits r1 \<noteq> random_bits r2 \<and> serves_all 2 w \<and>
    new_filename r1 file_name \<notin> fst ` set (container w) \<and>
    new_filename r2 file_name \<notin> fst ` set (container w) \<longrightarrow>
      fst (add_file_and_metadata_to_blob_storage r1 file_name file_contents file_content_type w)
        = Inr () \<and>
      fst (add_file_and_metadata_to_blob_storage r2 file_name file_contents file_content_type
            (snd (add_file_and_metadata_to_blob_storage r1 file_name file_contents
                    file_content_type w)))
        = Inr () \<and>
      container
        (snd (add_file_and_metadata_to_blob_storage r2 file_name file_contents file_content_type
           (snd (add_file_and_metadata_to_blob_storage r1 file_name file_contents
                   file_content_type w)))) =
        container w @
        [(new_filename r1 file_name, stored_object r1 file_name file_contents file_content_type),
         (new_filename r2 file_name, stored_object r2 file_name file_contents file_content_type)]) \<and>
   (add_file_and_metadata_to_blob_storage r1 file_name file_contents file_content_type w =
      (Inr (), w1) \<and>
    add_file_and_metadata_to_blob_storage r2 file_name file_contents file_content_type w1 =
      (Inr (), w2) \<longrightarrow>
      file_uuid_str r1 \<noteq> file_uuid_str r2 \<and>
      new_filename r1 file_name \<noteq> new_filename r2 file_name \<and>
      container w2 = container w @
        [(new_filename r1 file_name, stored_object r1 file_name file_contents file_content_type),
         (new_filename r2 file_name, stored_object r2 file_name file_contents file_content_type)])"
proof (intro conjI impI)
  assume "random_bits r1 \<noteq> random_bits r2"
  then show "file_uuid_str r1 \<noteq> file_uuid_str r2"
    using file_uuid_str_inj [of r1 r2] by blast
  then show "new_filename r1 file_name \<noteq> new_filename r2 file_name"
    by (simp add: new_filename_eq_iff)
next
  let ?up1 = "add_file_and_metadata_to_blob_storage r1 file_name file_contents file_content_type w"
  let ?w1 = "snd ?up1"
  let ?up2 = "add_file_and_metadata_to_blob_storage r2 file_name file_contents file_content_type
      ?w1"
  assume h: "random_bits r1 \<noteq> random_bits r2 \<and> serves_all 2 w \<and>
    new_filename r1 file_name \<notin> fst ` set (container w) \<and>
    new_filename r2 file_name \<notin> fst ` set (container w)"
  then have d: "new_filename r1 file_name \<noteq> new_filename r2 file_name"
    using file_uuid_str_inj [of r1 r2] by (auto simp: new_filename_eq_iff)
  from h have s: "serves_next w" by (simp add: serves_all_two(1))
  with h show ok1: "fst ?up1 = Inr ()" by (simp add: upload_succeeds)
  then have u1: "?up1 = (Inr (), ?w1)" by (simp add: prod_eq_iff)
  note c1 = upload_Inr(2) [OF u1]
  from h have a: "serves_all 2 w" by simp
  from s have "faults ?w1 = tl (faults w)" by (rule upload_served_faults)
  then have s1: "serves_next ?w1" by (rule serves_all_two(2) [OF a])
  from h d c1 have "new_filename r2 file_name \<notin> fst ` set (container ?w1)" by auto
  with s1 show ok2: "fst ?up2 = Inr ()" by (simp add: upload_succeeds)
  then have u2: "?up2 = (Inr (), snd ?up2)" by (simp add: prod_eq_iff)
  from upload_Inr(2) [OF u2] c1
  show "container (snd ?up2) = container w @
      [(new_filename r1 file_name, stored_object r1 file_name file_contents file_content_type),
       (new_filename r2 file_name, stored_object r2 file_name file_contents file_content_type)]"
    by simp
next
  assume "add_file_and_metadata_to_blob_storage r1 file_name file_contents file_content_type w =
      (Inr (), w1) \<and>
    add_file_and_metadata_to_blob_storage r2 file_name file_contents file_content_type w1 =
      (Inr (), w2)"
  then have u1: "add_file_and_metadata_to_blob_storage r1 file_name file_contents
      file_content_type w = (Inr (), w1)"
    and u2: "add_file_and_metadata_to_blob_storage r2 file_name file_contents
      file_content_type w1 = (Inr (), w2)"
    by simp_all
  from u1 have c1: "container w1 = container w @
      [(new_filename r1 file_name, stored_object r1 file_name file_contents file_content_type)]"
    by (rule upload_Inr(2))
  from u2 have "new_filename r2 file_name \<notin> fst ` set (container w1)"
    by (rule upload_Inr(1))
  with c1 show k: "new_filename r1 file_name \<noteq> new_filename r2 file_name"
    by auto
  then show "file_uuid_str r1 \<noteq> file_uuid_str r2"
    by (simp add: new_filename_eq_iff)
  from u2 have "container w2 = container w1 @
      [(new_filename r2 file_name, stored_object r2 file_name file_contents file_content_type)]"
    by (rule upload_Inr(2))
  with c1 show "container w2 = container w @
      [(new_filename r1 file_name, stored_object r1 file_name file_contents file_content_type),
       (new_filename r2 file_name, stored_object r2 file_name file_contents file_content_type)]"
    by simp
qed

theorem two_identical_uploads_two_objects_witness:
  "random_bits draw_a \<noteq> random_bits draw_b \<and>
   fst (add_file_and_metadata_to_blob_storage draw_a ''clip.MP4'' [1, 2, 3] ''video/mp4''
          empty_world) = Inr () \<and>
   fst (add_file_and_metadata_to_blob_storage draw_b ''clip.MP4'' [1, 2, 3] ''video/mp4''
          (snd (add_file_and_metadata_to_blob_storage draw_a ''clip.MP4'' [1, 2, 3]
                  ''video/mp4'' empty_world))) = Inr () \<and>
   container
     (snd (add_file_and_metadata_to_blob_storage draw_b ''clip.MP4'' [1, 2, 3] ''video/mp4''
        (snd (add_file_and_metadata_to_blob_storage draw_a ''clip.MP4'' [1, 2, 3]
                ''video/mp4'' empty_world)))) =
     container empty_world @
     [(new_filename draw_a ''clip.MP4'', stored_object draw_a ''clip.MP4'' [1, 2, 3] ''video/mp4''),
      (new_filename draw_b ''clip.MP4'', stored_object draw_b ''clip.MP4'' [1, 2, 3] ''video/mp4'')] \<and>
   file_uuid_str draw_a \<noteq> file_uuid_str draw_b \<and>
   container world_ab = container empty_world @
     [(new_filename draw_a ''clip.MP4'', stored_object draw_a ''clip.MP4'' [1, 2, 3] ''video/mp4''),
      (new_filename draw_b ''clip.MP4'', stored_object draw_b ''clip.MP4'' [1, 2, 3] ''video/mp4'')]"
proof -
  note t = two_identical_uploads_two_objects
    [where ?r1.0 = draw_a and ?r2.0 = draw_b and file_name = "''clip.MP4''"
       and file_contents = "[1, 2, 3]" and file_content_type = "''video/mp4''"
       and w = empty_world and ?w1.0 = world_a and ?w2.0 = world_ab]
  have d: "random_bits draw_a \<noteq> random_bits draw_b"
    by (simp add: random_bits_def draw_a_def draw_b_def)
  have h: "random_bits draw_a \<noteq> random_bits draw_b \<and> serves_all 2 empty_world \<and>
      new_filename draw_a ''clip.MP4'' \<notin> fst ` set (container empty_world) \<and>
      new_filename draw_b ''clip.MP4'' \<notin> fst ` set (container empty_world)"
    by (simp add: d serves_all_def empty_world_def)
  have b: "add_file_and_metadata_to_blob_storage draw_a ''clip.MP4'' [1, 2, 3] ''video/mp4''
        empty_world = (Inr (), world_a) \<and>
      add_file_and_metadata_to_blob_storage draw_b ''clip.MP4'' [1, 2, 3] ''video/mp4''
        world_a = (Inr (), world_ab)"
    by (simp add: upload_draw_a upload_draw_b)
  note went = t [THEN conjunct2, THEN conjunct1, THEN mp, OF h]
  note both = t [THEN conjunct2, THEN conjunct2, THEN mp, OF b]
  from went have "fst (add_file_and_metadata_to_blob_storage draw_a ''clip.MP4'' [1, 2, 3]
      ''video/mp4'' empty_world) = Inr ()"
    by (rule conjunct1)
  moreover note went [THEN conjunct2, THEN conjunct1] went [THEN conjunct2, THEN conjunct2]
    both [THEN conjunct1] both [THEN conjunct2, THEN conjunct2]
  ultimately show ?thesis using d by (intro conjI)
qed

text \<open>
  C8 asks that every error the store raises during an upload reaches the caller and that
  nothing is retried. The uploader's client keeps the SDK's default retry policy, so the
  claim fails for a transient failure: with a service that is busy at the first request
  and serves the second, the request is sent twice, the upload returns normally and the
  object is stored; the failure never reaches the caller.
\<close>

theorem transient_failure_is_retried:
  "faults busy_world = [Some (Transient ()), None] \<and>
   fst (add_file_and_metadata_to_blob_storage draw_a ''clip.MP4'' [1, 2, 3] ''video/mp4''
          busy_world) = Inr () \<and>
   attempts busy_world = 0 \<and>
   attempts (snd (add_file_and_metadata_to_blob_storage draw_a ''clip.MP4'' [1, 2, 3]
          ''video/mp4'' busy_world)) = 2 \<and>
   container (snd (add_file_and_metadata_to_blob_storage draw_a ''clip.MP4'' [1, 2, 3]
          ''video/mp4'' busy_world)) = [clip_a]"
  by (simp add: upload_draw_a_busy) (simp add: busy_world_def)

text \<open>
  C8, as the code has it. The uploader makes one \<open>upload_blob\<close> call on every path, and
  its outcome is the outcome of that call: what the call raises reaches the caller as it
  is, and the function catches nothing and retries nothing itself. Inside the call the
  client sends the request again after a transient failure, at most \<open>retry_total\<close> times:
  a fatal failure is raised at the first request and leaves the later answers of the
  service untouched, a name that exists is refused, a transient failure followed by a
  served request ends in a stored object, and four transient failures in a row end in
  the last of them being raised.
\<close>

theorem upload_surfaces_upload_blob_errors:
  "fst (add_file_and_metadata_to_blob_storage r file_name file_contents file_content_type w) =
     fst (upload_blob (new_filename r file_name) file_contents (upload_metadata r file_name)
            file_content_type (new_client (BlobClient (new_filename r file_name)) w)) \<and>
   sent (snd (add_file_and_metadata_to_blob_storage r file_name file_contents file_content_type w)) =
     sent w @ [Upload_blob (new_filename r file_name)] \<and>
   attempts (snd (add_file_and_metadata_to_blob_storage r file_name file_contents
       file_content_type w)) \<le> attempts w + Suc retry_total \<and>
   (\<forall>e fs. faults w = Some (Fatal e) # fs \<longrightarrow>
      fst (add_file_and_metadata_to_blob_storage r file_name file_contents file_content_type w) =
        Inl (StoreError e) \<and>
      faults (snd (add_file_and_metadata_to_blob_storage r file_name file_contents
          file_content_type w)) = fs \<and>
      attempts (snd (add_file_and_metadata_to_blob_storage r file_name file_contents
          file_content_type w)) = Suc (attempts w)) \<and>
   (serves_next w \<and> new_filename r file_name \<in> fst ` set (container w) \<longrightarrow>
      fst (add_file_and_metadata_to_blob_storage r file_name file_contents file_content_type w) =
        Inl ResourceExistsError) \<and>
   (\<forall>e fs. faults w = Some (Transient e) # None # fs \<and>
       new_filename r file_name \<notin> fst ` set (container w) \<longrightarrow>
      fst (add_file_and_metadata_to_blob_storage r file_name file_contents file_content_type w) =
        Inr () \<and>
      faults (snd (add_file_and_metadata_to_blob_storage r file_name file_contents
          file_content_type w)) = fs \<and>
      attempts (snd (add_file_and_metadata_to_blob_storage r file_name file_contents
          file_content_type w)) = attempts w + 2) \<and>
   (\<forall>e1 e2 e3 e4 fs.
      faults w = Some (Transient e1) # Some (Transient e2) # Some (Transient e3) #
        Some (Transient e4) # fs \<longrightarrow>
      fst (add_file_and_metadata_to_blob_storage r file_name file_contents file_content_type w) =
        Inl (StoreError e4) \<and>
      faults (snd (add_file_and_metadata_to_blob_storage r file_name file_contents
          file_content_type w)) = fs \<and>
      attempts (snd (add_file_and_metadata_to_blob_storage r file_name file_contents
          file_content_type w)) = attempts w + 4)"
proof (intro conjI allI impI)
  let ?up = "add_file_and_metadata_to_blob_storage r file_name file_contents file_content_type w"
  show "fst ?up =
      fst (upload_blob (new_filename r file_name) file_contents (upload_metadata r file_name)
            file_content_type (new_client (BlobClient (new_filename r file_name)) w))"
    by (rule upload_is_store_result)
  show "sent (snd ?up) = sent w @ [Upload_blob (new_filename r file_name)]"
    by (rule upload_sent)
  show "attempts (snd ?up) \<le> attempts w + Suc retry_total"
    using upload_attempts [of w r file_name file_contents file_content_type] by simp
  show "fst ?up = Inl (StoreError e)" if "faults w = Some (Fatal e) # fs" for e fs
    using that by (rule upload_fatal(1))
  show "faults (snd ?up) = fs" if "faults w = Some (Fatal e) # fs" for e fs
    using that by (rule upload_fatal(2))
  show "attempts (snd ?up) = Suc (attempts w)" if "faults w = Some (Fatal e) # fs" for e fs
    using that by (rule upload_fatal(3))
  show "fst ?up = Inl ResourceExistsError"
    if "serves_next w \<and> new_filename r file_name \<in> fst ` set (container w)"
    using that by (simp add: upload_exists)
  show "fst ?up = Inr ()"
    if "faults w = Some (Transient e) # None # fs \<and>
      new_filename r file_name \<notin> fst ` set (container w)" for e fs
    using that by (simp add: upload_defs)
  show "faults (snd ?up) = fs"
    if "faults w = Some (Transient e) # None # fs \<and>
      new_filename r file_name \<notin> fst ` set (container w)" for e fs
    using that by (simp add: upload_defs)
  show "attempts (snd ?up) = attempts w + 2"
    if "faults w = Some (Transient e) # None # fs \<and>
      new_filename r file_name \<notin> fst ` set (container w)" for e fs
    using that by (simp add: upload_defs)
  show "fst ?up = Inl (StoreError e4)"
    if "faults w = Some (Transient e1) # Some (Transient e2) # Some (Transient e3) #
        Some (Transient e4) # fs" for e1 e2 e3 e4 fs
    using that by (simp add: upload_defs)
  show "faults (snd ?up) = fs"
    if "faults w = Some (Transient e1) # Some (Transient e2) # Some (Transient e3) #
        Some (Transient e4) # fs" for e1 e2 e3 e4 fs
    using that by (simp add: upload_defs)
  show "attempts (snd ?up) = attempts w + 4"
    if "faults w = Some (Transient e1) # Some (Transient e2) # Some (Transient e3) #
        Some (Transient e4) # fs" for e1 e2 e3 e4 fs
    using that by (simp add: upload_defs)
qed

theorem upload_surfaces_upload_blob_errors_witness:
  "fst (add_file_and_metadata_to_blob_storage draw_a ''clip.MP4'' [1, 2, 3] ''video/mp4''
          down_world) = Inl (StoreError ()) \<and>
   faults (snd (add_file_and_metadata_to_blob_storage draw_a ''clip.MP4'' [1, 2, 3] ''video/mp4''
          down_world)) = [None] \<and>
   attempts (snd (add_file_and_metadata_to_blob_storage draw_a ''clip.MP4'' [1, 2, 3]
          ''video/mp4'' down_world)) = Suc (attempts down_world) \<and>
   fst (add_file_and_metadata_to_blob_storage draw_a ''clip.MP4'' [1, 2, 3] ''video/mp4''
          world_a) = Inl ResourceExistsError \<and>
   fst (add_file_and_metadata_to_blob_storage draw_a ''clip.MP4'' [1, 2, 3] ''video/mp4''
          busy_world) = Inr () \<and>
   attempts (snd (add_file_and_metadata_to_blob_storage draw_a ''clip.MP4'' [1, 2, 3]
          ''video/mp4'' busy_world)) = attempts busy_world + 2 \<and>
   fst (add_file_and_metadata_to_blob_storage draw_a ''clip.MP4'' [1, 2, 3] ''video/mp4''
          busy4_world) = Inl (StoreError ()) \<and>
   faults (snd (add_file_and_metadata_to_blob_storage draw_a ''clip.MP4'' [1, 2, 3] ''video/mp4''
          busy4_world)) = [None]"
proof -
  note t = upload_surfaces_upload_blob_errors
    [where r = draw_a and file_name = "''clip.MP4''" and file_contents = "[1, 2, 3]"
       and file_content_type = "''video/mp4''"]
  have f: "faults down_world = Some (Fatal ()) # [None]"
    by (simp add: down_world_def)
  have x: "serves_next world_a \<and>
      new_filename draw_a ''clip.MP4'' \<in> fst ` set (container world_a)"
    by (simp add: new_filename_draw_a serves_next_def world_a_def clip_a_def)
  have y: "faults busy_world = Some (Transient ()) # None # [] \<and>
      new_filename draw_a ''clip.MP4'' \<notin> fst ` set (container busy_world)"
    by (simp add: busy_world_def)
  have z: "faults busy4_world = Some (Transient ()) # Some (Transient ()) #
      Some (Transient ()) # Some (Transient ()) # [None]"
    by (simp add: busy4_world_def)
  note fatal = t [where w = down_world, THEN conjunct2, THEN conjunct2, THEN conjunct2,
    THEN conjunct1, rule_format, OF f]
  note refused = t [where w = world_a, THEN conjunct2, THEN conjunct2, THEN conjunct2,
    THEN conjunct2, THEN conjunct1, rule_format, OF x]
  note retried = t [where w = busy_world, THEN conjunct2, THEN conjunct2, THEN conjunct2,
    THEN conjunct2, THEN conjunct2, THEN conjunct1, rule_format, OF y]
  note exhausted = t [where w = busy4_world, THEN conjunct2, THEN conjunct2, THEN conjunct2,
    THEN conjunct2, THEN conjunct2, THEN conjunct2, rule_format, OF z]
  note fatal [THEN conjunct1] fatal [THEN conjunct2, THEN conjunct1]
    fatal [THEN conjunct2, THEN conjunct2] refused retried [THEN conjunct1]
    retried [THEN conjunct2, THEN conjunct2] exhausted [THEN conjunct1]
    exhausted [THEN conjunct2, THEN conjunct1]
  then show ?thesis by (intro conjI)
qed



section \<open>Properties of the lister\<close>

text \<open>
  C3. A listing that returns renders \<open>gallery.html\<close> with a list that has one record for
  each object of the container, in the order of the enumeration: as many records as
  objects, each holding the object's stored uuid, author, title and badge and the fixed
  placeholder image. The list is complete when the function returns. The listing returns
  whenever the service serves the request and every object has the four keys.
\<close>

theorem gallery_one_record_per_object:
  "(\<forall>resp w'. gallery request w = (Inr resp, w') \<longrightarrow>
      (\<exists>blobs_list. resp = TemplateResponse ''gallery.html'' request blobs_list \<and>
         length blobs_list = length (container w) \<and>
         list_all2 (\<lambda>blob entry. is_display_record (blob_metadata (snd blob)) entry)
           (container w) blobs_list)) \<and>
   (serves_next w \<and>
    list_all (\<lambda>blob. has_expected_keys (blob_metadata (snd blob))) (container w) \<longrightarrow>
      (\<exists>resp. fst (gallery request w) = Inr resp))"
proof (intro conjI allI impI)
  fix resp w'
  assume "gallery request w = (Inr resp, w')"
  from gallery_Inr(1) [OF this] obtain blobs_list where
    r: "resp = TemplateResponse ''gallery.html'' request blobs_list"
    and l: "list_all2 (\<lambda>blob entry. is_display_record (blob_metadata (snd blob)) entry)
      (container w) blobs_list"
    by blast
  from l have "length blobs_list = length (container w)"
    by (simp add: list_all2_lengthD)
  with r l show "\<exists>blobs_list. resp = TemplateResponse ''gallery.html'' request blobs_list \<and>
      length blobs_list = length (container w) \<and>
      list_all2 (\<lambda>blob entry. is_display_record (blob_metadata (snd blob)) entry)
        (container w) blobs_list"
    by blast
next
  assume "serves_next w \<and>
    list_all (\<lambda>blob. has_expected_keys (blob_metadata (snd blob))) (container w)"
  then show "\<exists>resp. fst (gallery request w) = Inr resp"
    by (simp add: gallery_succeeds)
qed

theorem gallery_one_record_per_object_witness:
  "length [entry_a, entry_b] = length (container world_ab) \<and>
   is_display_record (blob_metadata (snd clip_a)) entry_a \<and>
   is_display_record (blob_metadata (snd clip_b)) entry_b \<and>
   fst (gallery () world_ab) = Inr (TemplateResponse ''gallery.html'' () [entry_a, entry_b])"
proof -
  note t = gallery_one_record_per_object [where request = "()" and w = world_ab]
  from t gallery_world_ab
  have "\<exists>blobs_list. TemplateResponse ''gallery.html'' () [entry_a, entry_b] =
        TemplateResponse ''gallery.html'' () blobs_list \<and>
      length blobs_list = length (container world_ab) \<and>
      list_all2 (\<lambda>blob entry. is_display_record (blob_metadata (snd blob)) entry)
        (container world_ab) blobs_list"
    by blast
  then have "length [entry_a, entry_b] = length (container world_ab) \<and>
      list_all2 (\<lambda>blob entry. is_display_record (blob_metadata (snd blob)) entry)
        (container world_ab) [entry_a, entry_b]"
    by auto
  moreover have "container world_ab = [clip_a, clip_b]" by (simp add: world_ab_def)
  moreover have "serves_next world_ab \<and>
      list_all (\<lambda>blob. has_expected_keys (blob_metadata (snd blob))) (container world_ab)"
    by (simp add: serves_next_def world_ab_def clip_a_def clip_b_def has_expected_keys_def
        expected_keys_def)
  with t have "\<exists>resp. fst (gallery () world_ab) = Inr resp" by blast
  ultimately show ?thesis by (simp add: gallery_world_ab)
qed

text \<open>
  C4. When the service serves the listing and some object of the container lacks one of
  the keys uuid, author, title, badge, the listing raises \<open>KeyError\<close> for one of these
  keys, a key that an object of the container lacks; no value is put in its place.
\<close>

theorem gallery_missing_key_is_KeyError:
  assumes "serves_next w" and "blob \<in> set (container w)" and "k \<in> set expected_keys"
    and "map_of (blob_metadata (snd blob)) k = None"
  shows "\<exists>blob' \<in> set (container w). \<exists>k' \<in> set expected_keys.
           fst (gallery request w) = Inl (KeyError k') \<and>
           map_of (blob_metadata (snd blob')) k' = None"
proof -
  from assms(3,4) have "\<not> has_expected_keys (blob_metadata (snd blob))"
    by (auto simp: has_expected_keys_def list_all_iff)
  with assms(2)
  have "\<not> list_all (\<lambda>blob. has_expected_keys (blob_metadata (snd blob))) (container w)"
    by (auto simp: list_all_iff)
  with assms(1) show ?thesis by (rule gallery_KeyError)
qed

theorem gallery_missing_key_is_KeyError_witness:
  "fst (gallery () foreign_world) = Inl (KeyError ''author'' :: unit error)"
proof -
  have s: "serves_next foreign_world" by (simp add: serves_next_def foreign_world_def)
  have b: "(''intro.webm'',
       \<lparr>blob_data = [], blob_metadata = [(''uuid'', ''intro'')],
        blob_content_type = ''video/webm''\<rparr>) \<in> set (container foreign_world)"
    by (simp add: foreign_world_def)
  have k: "''title'' \<in> set expected_keys" by (simp add: expected_keys_def)
  from gallery_missing_key_is_KeyError [OF s b k, of "()"]
  show ?thesis by (simp add: gallery_foreign_world)
qed

section \<open>Client handles\<close>

text \<open>
  C9 asks that both functions release their client handle on every exit path, the paths
  where the store call or the projection of the metadata fails included. The code does
  not: with a service that fails the upload request, the uploader raises and its
  \<open>BlobClient\<close> is still open; with an object that lacks \<open>author\<close>, the lister raises
  \<open>KeyError\<close> and both of its clients are still open.
\<close>

theorem failure_leaves_clients_open:
  "open_clients down_world = [] \<and>
   fst (add_file_and_metadata_to_blob_storage draw_a ''clip.MP4'' [1, 2, 3] ''video/mp4''
          down_world) = Inl (StoreError ()) \<and>
   open_clients (snd (add_file_and_metadata_to_blob_storage draw_a ''clip.MP4'' [1, 2, 3]
          ''video/mp4'' down_world)) =
     [BlobClient ''01234567-89ab-4def-8123-456789abcdef.mp4''] \<and>
   open_clients foreign_world = [] \<and>
   fst (gallery () foreign_world) = Inl (KeyError ''author'') \<and>
   open_clients (snd (gallery () foreign_world)) = [ContainerClient, BlobServiceClient]"
  by (simp add: upload_draw_a_down gallery_foreign_world) (simp add: down_world_def foreign_world_def)

text \<open>
  C9, as the code has it. Each function constructs its clients at the start and closes
  them with explicit \<open>close\<close> calls after the work; there is no \<open>try\<close>, \<open>finally\<close> or
  \<open>async with\<close>. A call that returns normally leaves the open clients as it found them.
  A call that raises leaves the function before the \<open>close\<close> calls: the clients it
  constructed stay open.
\<close>

theorem clients_closed_on_normal_return:
  "(add_file_and_metadata_to_blob_storage r file_name file_contents file_content_type w =
      (Inr (), w') \<longrightarrow> open_clients w' = open_clients w) \<and>
   (add_file_and_metadata_to_blob_storage r file_name file_contents file_content_type w =
      (Inl e, w') \<longrightarrow> open_clients w' = BlobClient (new_filename r file_name) # open_clients w) \<and>
   (gallery request w = (Inr resp, w'') \<longrightarrow> open_clients w'' = open_clients w) \<and>
   (gallery request w = (Inl e', w'') \<longrightarrow>
      open_clients w'' = ContainerClient # BlobServiceClient # open_clients w)"
  by (simp add: upload_Inr(3) upload_Inl(2) gallery_Inr(2) gallery_Inl(1))

theorem clients_closed_on_normal_return_witness:
  "open_clients world_a = open_clients empty_world \<and>
   open_clients
     \<lparr>container = [],
      open_clients = [BlobClient ''01234567-89ab-4def-8123-456789abcdef.mp4''],
      sent = [Upload_blob ''01234567-89ab-4def-8123-456789abcdef.mp4''],
      faults = [None :: unit fault option], attempts = 1\<rparr> =
     BlobClient (new_filename draw_a ''clip.MP4'') # open_clients down_world \<and>
   open_clients (world_ab\<lparr>sent := sent world_ab @ [List_blobs], attempts := 3\<rparr>) =
     open_clients world_ab \<and>
   open_clients
     (foreign_world\<lparr>open_clients := [ContainerClient, BlobServiceClient],
        sent := [List_blobs], attempts := 1\<rparr>) =
     ContainerClient # BlobServiceClient # open_clients foreign_world"
proof -
  note returned = clients_closed_on_normal_return
    [THEN conjunct1, THEN mp, OF upload_draw_a]
  note raised = clients_closed_on_normal_return
    [THEN conjunct2, THEN conjunct1, THEN mp, OF upload_draw_a_down]
  note listed = clients_closed_on_normal_return
    [THEN conjunct2, THEN conjunct2, THEN conjunct1, THEN mp, OF gallery_world_ab]
  note broken = clients_closed_on_normal_return
    [THEN conjunct2, THEN conjunct2, THEN conjunct2, THEN mp, OF gallery_foreign_world]
  from returned raised listed broken show ?thesis by (intro conjI)
qed

end
